theory Spec2Isabelle
  imports Complex_Main
begin

section \<open>Python values and exceptions\<close>

text \<open>
  The values that travel through the result dictionaries. Python floats are modelled as
  mathematical reals (no rounding), a \<open>dict\<close> as an association list in insertion order
  read with \<open>map_of\<close>.
\<close>

datatype pyval =
    PyNone
  | PyBool bool
  | PyInt int
  | PyFloat real
  | PyStr string
  | PyList "pyval list"
  | PyDict "(string \<times> pyval) list"

type_synonym pydict = "(string \<times> pyval) list"

text \<open>An exception object: whether its class derives from \<open>Exception\<close> (\<open>KeyboardInterrupt\<close>,
  \<open>SystemExit\<close> and other classes directly under \<open>BaseException\<close> do not), its class name,
  and the text that \<open>str(e)\<close> gives.\<close>

datatype py_exception = PyExc bool string string

fun is_Exception :: "py_exception \<Rightarrow> bool" where
  "is_Exception (PyExc b cls msg) = b"

fun str_exc :: "py_exception \<Rightarrow> string" where
  "str_exc (PyExc b cls msg) = msg"

text \<open>The exception of a float division by zero, with the text CPython gives it.\<close>

definition ZeroDivisionError :: py_exception where
  "ZeroDivisionError = PyExc True ''ZeroDivisionError'' ''float division by zero''"

section \<open>core/models.py\<close>

definition unified_results_schema ::
  "string \<Rightarrow> real \<Rightarrow> pyval list option \<Rightarrow> pyval list option \<Rightarrow> pydict option \<Rightarrow> pydict" where
  "unified_results_schema pipeline timestamp_s detections landmarks metadata =
     [(''pipeline'', PyStr pipeline),
      (''timestamp_s'', PyFloat timestamp_s),
      (''detections'', PyList (case detections of Some d \<Rightarrow> d | None \<Rightarrow> [])),
      (''landmarks'', PyList (case landmarks of Some l \<Rightarrow> l | None \<Rightarrow> [])),
      (''metadata'', PyDict (case metadata of Some m \<Rightarrow> m | None \<Rightarrow> []))]"

section \<open>core/utils.py\<close>

subsection \<open>collections.deque with a maxlen\<close>

record deque =
  maxlen :: nat
  items :: "real list"

definition deque_new :: "nat \<Rightarrow> deque" where
  "deque_new n = \<lparr>maxlen = n, items = []\<rparr>"

text \<open>\<open>append\<close> adds on the right and, when the deque is now over its bound, drops one
  element on the left.\<close>

definition deque_append :: "deque \<Rightarrow> real \<Rightarrow> deque" where
  "deque_append d v =
     (let ys = items d @ [v]
      in d\<lparr>items := (if length ys > maxlen d then tl ys else ys)\<rparr>)"

definition deque_clear :: "deque \<Rightarrow> deque" where
  "deque_clear d = d\<lparr>items := []\<rparr>"

subsection \<open>RollingAverage\<close>

record RollingAverage =
  ra_values :: deque

definition RollingAverage_init :: "nat \<Rightarrow> RollingAverage" where
  "RollingAverage_init n = \<lparr>ra_values = deque_new n\<rparr>"

definition add :: "real \<Rightarrow> RollingAverage \<Rightarrow> RollingAverage" where
  "add v r = r\<lparr>ra_values := deque_append (ra_values r) v\<rparr>"

definition average :: "RollingAverage \<Rightarrow> real" where
  "average r =
     (if items (ra_values r) = [] then 0
      else sum_list (items (ra_values r)) / real (length (items (ra_values r))))"

definition count :: "RollingAverage \<Rightarrow> nat" where
  "count r = length (items (ra_values r))"

definition clear :: "RollingAverage \<Rightarrow> RollingAverage" where
  "clear r = r\<lparr>ra_values := deque_clear (ra_values r)\<rparr>"

subsection \<open>FPSCounter\<close>

record FPSCounter =
  last_time :: "real option"
  frame_times :: deque
  rolling :: RollingAverage

definition FPSCounter_init :: "nat \<Rightarrow> FPSCounter" where
  "FPSCounter_init rolling_size =
     \<lparr>last_time = None, frame_times = deque_new rolling_size,
      rolling = RollingAverage_init rolling_size\<rparr>"

text \<open>
  \<open>tick\<close> reads the clock once; the reading is the argument \<open>now\<close>. The counter is updated
  before the division, so the state is returned also when the division raises.
  The result is \<open>(fps, latency_ms)\<close>.
\<close>

definition tick :: "real \<Rightarrow> FPSCounter \<Rightarrow> FPSCounter \<times> (py_exception + real \<times> real)" where
  "tick now c =
     (let (latency_ms, c1) =
            (case last_time c of
               None \<Rightarrow> (0, c)
             | Some lt \<Rightarrow>
                 (let dt = now - lt; l = dt * 1000
                  in (l, c\<lparr>frame_times := deque_append (frame_times c) dt,
                           rolling := add l (rolling c)\<rparr>)));
          c2 = c1\<lparr>last_time := Some now\<rparr>
      in if items (frame_times c2) = [] then (c2, Inr (0, latency_ms))
         else if last (items (frame_times c2)) = 0 then (c2, Inl ZeroDivisionError)
         else (c2, Inr (1 / last (items (frame_times c2)), latency_ms)))"

definition rolling_average_ms :: "FPSCounter \<Rightarrow> real" where
  "rolling_average_ms c = average (rolling c)"

definition reset :: "FPSCounter \<Rightarrow> FPSCounter" where
  "reset c = c\<lparr>last_time := None, frame_times := deque_clear (frame_times c),
               rolling := clear (rolling c)\<rparr>"

text \<open>A sequence of \<open>add\<close> calls, and a sequence of \<open>tick\<close> calls at the given clock readings
  (a caller that catches the exception of a tick and goes on).\<close>

fun adds :: "real list \<Rightarrow> RollingAverage \<Rightarrow> RollingAverage" where
  "adds [] r = r"
| "adds (v # vs) r = adds vs (add v r)"

fun ticks :: "real list \<Rightarrow> FPSCounter \<Rightarrow> FPSCounter" where
  "ticks [] c = c"
| "ticks (t # ts) c = ticks ts (fst (tick t c))"

section \<open>core/capture.py\<close>

text \<open>
  A frame is an opaque pixel buffer. The OpenCV side is the environment: a \<open>driver\<close> says
  which devices open and what their successive reads return, and the \<open>world\<close> records the
  backing handles that are open (created by a successful open, gone after \<open>release\<close>).
\<close>

datatype frame = Frame nat

datatype backend = CAP_ANY | CAP_DSHOW

datatype device = Camera int backend | File string

record VideoCapture =
  vc_id :: nat
  vc_device :: device
  vc_isOpened :: bool
  vc_pending :: "(bool \<times> frame option) list"

record driver =
  win32 :: bool
  can_open :: "device \<Rightarrow> bool"
  stream :: "device \<Rightarrow> (bool \<times> frame option) list"

record world =
  next_id :: nat
  live :: "nat list"

definition cv2_VideoCapture :: "driver \<Rightarrow> device \<Rightarrow> world \<Rightarrow> VideoCapture \<times> world" where
  "cv2_VideoCapture drv dev w =
     (\<lparr>vc_id = next_id w, vc_device = dev, vc_isOpened = can_open drv dev,
       vc_pending = stream drv dev\<rparr>,
      w\<lparr>next_id := Suc (next_id w),
        live := (if can_open drv dev then live w @ [next_id w] else live w)\<rparr>)"

definition vc_release :: "VideoCapture \<Rightarrow> world \<Rightarrow> world" where
  "vc_release h w = w\<lparr>live := removeAll (vc_id h) (live w)\<rparr>"

definition vc_read :: "VideoCapture \<Rightarrow> (bool \<times> frame option) \<times> VideoCapture" where
  "vc_read h =
     (if \<not> vc_isOpened h then ((False, None), h)
      else case vc_pending h of
             [] \<Rightarrow> ((False, None), h)
           | r # rs \<Rightarrow> (r, h\<lparr>vc_pending := rs\<rparr>))"

record VideoCaptureSource =
  cap :: "VideoCapture option"
  source_path :: "string option"
  camera_index :: int

definition VideoCaptureSource_init :: VideoCaptureSource where
  "VideoCaptureSource_init = \<lparr>cap = None, source_path = None, camera_index = 0\<rparr>"

definition close :: "world \<times> VideoCaptureSource \<Rightarrow> world \<times> VideoCaptureSource" where
  "close ws =
     (case ws of (w, s) \<Rightarrow>
        (case cap s of
           Some h \<Rightarrow> (vc_release h w, s\<lparr>cap := None, source_path := None\<rparr>)
         | None \<Rightarrow> (w, s\<lparr>source_path := None\<rparr>)))"

definition open_camera ::
  "driver \<Rightarrow> int \<Rightarrow> world \<times> VideoCaptureSource \<Rightarrow> bool \<times> world \<times> VideoCaptureSource" where
  "open_camera drv index ws =
     (case close ws of (w, s) \<Rightarrow>
        (case cv2_VideoCapture drv
                (Camera index (if win32 drv then CAP_DSHOW else CAP_ANY)) w of
           (h, w') \<Rightarrow>
             (vc_isOpened h, w',
              s\<lparr>cap := Some h, source_path := None, camera_index := index\<rparr>)))"

definition open_file ::
  "driver \<Rightarrow> string \<Rightarrow> world \<times> VideoCaptureSource \<Rightarrow> bool \<times> world \<times> VideoCaptureSource" where
  "open_file drv path ws =
     (case close ws of (w, s) \<Rightarrow>
        (case cv2_VideoCapture drv (File path) w of
           (h, w') \<Rightarrow> (vc_isOpened h, w', s\<lparr>cap := Some h, source_path := Some path\<rparr>)))"

definition is_opened :: "VideoCaptureSource \<Rightarrow> bool" where
  "is_opened s = (case cap s of None \<Rightarrow> False | Some h \<Rightarrow> vc_isOpened h)"

definition read :: "VideoCaptureSource \<Rightarrow> (bool \<times> frame option) \<times> VideoCaptureSource" where
  "read s =
     (case cap s of
        None \<Rightarrow> ((False, None), s)
      | Some h \<Rightarrow> (case vc_read h of (r, h') \<Rightarrow> (r, s\<lparr>cap := Some h'\<rparr>)))"

text \<open>A script of calls made on one source, run from a given state.\<close>

datatype capture_call = OpenCamera int | OpenFile string | Close

fun call :: "driver \<Rightarrow> capture_call \<Rightarrow> world \<times> VideoCaptureSource \<Rightarrow> world \<times> VideoCaptureSource" where
  "call drv (OpenCamera i) ws = snd (open_camera drv i ws)"
| "call drv (OpenFile p) ws = snd (open_file drv p ws)"
| "call drv Close ws = close ws"

fun calls :: "driver \<Rightarrow> capture_call list \<Rightarrow> world \<times> VideoCaptureSource \<Rightarrow> world \<times> VideoCaptureSource" where
  "calls drv [] ws = ws"
| "calls drv (c # cs) ws = calls drv cs (call drv c ws)"

definition world_init :: world where
  "world_init = \<lparr>next_id = 0, live = []\<rparr>"

text \<open>The handle held by the source, as a list of at most one handle id.\<close>

definition held :: "VideoCaptureSource \<Rightarrow> nat list" where
  "held s = (case cap s of None \<Rightarrow> [] | Some h \<Rightarrow> if vc_isOpened h then [vc_id h] else [])"

section \<open>core/runner.py\<close>

text \<open>
  The three signals of the runner, in the order in which they are emitted.
  \<open>frame_processed\<close> carries the frame, the results dictionary, fps, latency in ms and
  the rolling average in ms.
\<close>

datatype signal =
    frame_processed frame pydict real real real
  | error_occurred string
  | stopped

datatype qthread = QThread bool

text \<open>
  The plugin is an object with hidden state of type \<open>'p\<close>; its \<open>process\<close> method is a
  parameter of the loop: it returns the annotated frame and the results with the next
  state of the plugin, or raises.
\<close>

type_synonym 'p process_fn = "'p \<Rightarrow> frame \<Rightarrow> real \<Rightarrow> py_exception + (frame \<times> pydict) \<times> 'p"

record 'p FrameProcessorRunner =
  capture :: VideoCaptureSource
  plugin :: "'p option"
  running :: bool
  thread :: "qthread option"
  fps_counter :: FPSCounter

definition FrameProcessorRunner_init :: "VideoCaptureSource \<Rightarrow> 'p FrameProcessorRunner" where
  "FrameProcessorRunner_init c =
     \<lparr>capture = c, plugin = None, running = False, thread = None,
      fps_counter = FPSCounter_init 30\<rparr>"

definition set_plugin :: "'p option \<Rightarrow> 'p FrameProcessorRunner \<Rightarrow> 'p FrameProcessorRunner" where
  "set_plugin p r = r\<lparr>plugin := p\<rparr>"

text \<open>\<open>start\<close> returns the runner and whether a worker thread was started; the worker
  started executes \<open>_run_loop\<close> (\<open>run_loop\<close> below), the slot connected to the thread's
  \<open>started\<close> signal.\<close>

definition start :: "'p FrameProcessorRunner \<Rightarrow> 'p FrameProcessorRunner \<times> bool" where
  "start r =
     (if running r then (r, False)
      else (r\<lparr>running := True, thread := Some (QThread True)\<rparr>, True))"

definition stop :: "'p FrameProcessorRunner \<Rightarrow> 'p FrameProcessorRunner" where
  "stop r = r\<lparr>running := False\<rparr>"

definition finish_thread :: "'p FrameProcessorRunner \<Rightarrow> 'p FrameProcessorRunner" where
  "finish_thread r = r\<lparr>thread := None\<rparr>"

text \<open>
  What one pass through the loop observes from outside the worker: whether the consumer
  has called \<open>stop()\<close> since the previous loop test, and the two clock readings of the
  pass (\<open>timestamp_s\<close> and the one inside \<open>tick\<close>).
\<close>

record loop_env =
  stop_called :: bool
  t_frame :: real
  t_tick :: real

definition emit :: "signal \<Rightarrow> (signal list \<times> 'a) option \<Rightarrow> (signal list \<times> 'a) option" where
  "emit sg rest = (case rest of None \<Rightarrow> None | Some (sgs, x) \<Rightarrow> Some (sg # sgs, x))"

text \<open>How \<open>_run_loop\<close> is left: by returning, or by an exception that its handler
  (\<open>except Exception\<close>) does not catch.\<close>

datatype loop_exit = Returned | Raised py_exception

text \<open>
  The \<open>while\<close> loop of \<open>_run_loop\<close>. Each loop test consumes one observation; the result
  is \<open>None\<close> when the observations end while the loop is still running, and otherwise
  the signals emitted, in order, with the runner as the loop leaves it and the way it is
  left. An exception raised in the \<open>try\<close> block by \<open>process\<close> or by \<open>tick\<close> is handled only
  when it is an instance of \<open>Exception\<close>; any other leaves the method at once, with no
  signal and the running flag as it was.
\<close>

fun while_loop ::
  "'p process_fn \<Rightarrow> loop_env list \<Rightarrow> 'p FrameProcessorRunner
     \<Rightarrow> (signal list \<times> 'p FrameProcessorRunner \<times> loop_exit) option" where
  "while_loop process [] r = None"
| "while_loop process (e # es) r0 =
     (let r = (if stop_called e then stop r0 else r0)
      in if \<not> (running r \<and> is_opened (capture r)) then Some ([stopped], r, Returned)
         else
           (case read (capture r) of
              ((ok, fr), src) \<Rightarrow>
                (let r1 = r\<lparr>capture := src\<rparr>
                 in case (if ok then fr else None) of
                      None \<Rightarrow> Some ([stopped], r1, Returned)
                    | Some f \<Rightarrow>
                        (case plugin r1 of
                           None \<Rightarrow> emit (frame_processed f [] 0 0 0) (while_loop process es r1)
                         | Some p \<Rightarrow>
                             (case process p f (t_frame e) of
                                Inl ex \<Rightarrow>
                                  if is_Exception ex
                                  then Some ([error_occurred (str_exc ex), stopped],
                                             r1\<lparr>running := False\<rparr>, Returned)
                                  else Some ([], r1, Raised ex)
                              | Inr ((annotated, results), p') \<Rightarrow>
                                  (case tick (t_tick e) (fps_counter r1) of
                                     (c, Inl ex) \<Rightarrow>
                                       if is_Exception ex
                                       then Some ([error_occurred (str_exc ex), stopped],
                                                  r1\<lparr>plugin := Some p', fps_counter := c,
                                                     running := False\<rparr>, Returned)
                                       else Some ([], r1\<lparr>plugin := Some p', fps_counter := c\<rparr>,
                                                  Raised ex)
                                   | (c, Inr (fps, latency_ms)) \<Rightarrow>
                                       emit (frame_processed annotated results fps latency_ms
                                               (rolling_average_ms c))
                                         (while_loop process es
                                            (r1\<lparr>plugin := Some p', fps_counter := c\<rparr>))))))))"

definition run_loop ::
  "'p process_fn \<Rightarrow> loop_env list \<Rightarrow> 'p FrameProcessorRunner
     \<Rightarrow> (signal list \<times> 'p FrameProcessorRunner \<times> loop_exit) option" where
  "run_loop process es r = while_loop process es (r\<lparr>fps_counter := reset (fps_counter r)\<rparr>)"

section \<open>plugins/__init__.py\<close>

text \<open>
  A loaded plugin object, as far as discovery looks at it, and the plugins directory as
  the loader sees it: for a module name, either no file, no import spec, a module whose
  execution raises, or a module with its optional attribute \<open>plugin\<close> and its optional class
  \<open>Plugin\<close> (whose instantiation gives an object or raises); and the file names that
  \<open>glob("*.py")\<close> lists.
\<close>

record plugin_obj =
  plugin_id :: string
  display_name :: string

datatype module_source =
    NoFile
  | NoSpec
  | ExecRaises py_exception
  | Module "plugin_obj option" "(py_exception + plugin_obj) option"

record plugins_dir =
  module_file :: "string \<Rightarrow> module_source"
  glob_py :: "string list"

definition BUILTIN_PLUGINS :: "string list" where
  "BUILTIN_PLUGINS =
     [''hands'', ''pose'', ''facemesh'', ''object_detector'', ''face_detector'',
      ''gesture_recognizer'']"

definition load_plugin_from_module :: "plugins_dir \<Rightarrow> string \<Rightarrow> py_exception + plugin_obj option" where
  "load_plugin_from_module d module_name =
     (case module_file d module_name of
        NoFile \<Rightarrow> Inr None
      | NoSpec \<Rightarrow> Inr None
      | ExecRaises e \<Rightarrow> Inl e
      | Module (Some p) cls \<Rightarrow> Inr (Some p)
      | Module None (Some (Inr p)) \<Rightarrow> Inr (Some p)
      | Module None (Some (Inl e)) \<Rightarrow> Inl e
      | Module None None \<Rightarrow> Inr None)"

text \<open>The body shared by both loops: append the plugin when it is there, its id is not
  empty and the id was not seen before.\<close>

definition register ::
  "plugin_obj option \<Rightarrow> plugin_obj list \<times> string set \<Rightarrow> plugin_obj list \<times> string set" where
  "register po st =
     (case po of
        None \<Rightarrow> st
      | Some p \<Rightarrow>
          if plugin_id p \<noteq> [] \<and> plugin_id p \<notin> snd st
          then (fst st @ [p], insert (plugin_id p) (snd st))
          else st)"

fun load_builtin ::
  "plugins_dir \<Rightarrow> string list \<Rightarrow> plugin_obj list \<times> string set
     \<Rightarrow> py_exception + plugin_obj list \<times> string set" where
  "load_builtin d [] st = Inr st"
| "load_builtin d (name # names) st =
     (case load_plugin_from_module d name of
        Inl e \<Rightarrow> Inl e
      | Inr po \<Rightarrow> load_builtin d names (register po st))"

definition stem :: "string \<Rightarrow> string" where
  "stem name =
     (if length name > 3 \<and> drop (length name - 3) name = ''.py''
      then take (length name - 3) name else name)"

fun load_extra ::
  "plugins_dir \<Rightarrow> string list \<Rightarrow> plugin_obj list \<times> string set
     \<Rightarrow> py_exception + plugin_obj list \<times> string set" where
  "load_extra d [] st = Inr st"
| "load_extra d (fname # fnames) st =
     (if take 1 fname = ''_'' \<or> fname = ''base.py'' then load_extra d fnames st
      else if stem fname \<in> set BUILTIN_PLUGINS then load_extra d fnames st
      else (case load_plugin_from_module d (stem fname) of
              Inl e \<Rightarrow> Inl e
            | Inr po \<Rightarrow> load_extra d fnames (register po st)))"

definition discover_plugins :: "plugins_dir \<Rightarrow> py_exception + plugin_obj list" where
  "discover_plugins d =
     (case load_builtin d BUILTIN_PLUGINS ([], {}) of
        Inl e \<Rightarrow> Inl e
      | Inr st \<Rightarrow>
          (case load_extra d (glob_py d) st of
             Inl e \<Rightarrow> Inl e
           | Inr (loaded, seen_ids) \<Rightarrow> Inr loaded))"


section \<open>The built-in plugins\<close>

text \<open>
  The MediaPipe side is the environment. A session (detector, landmarker, recognizer)
  takes the frame and the timestamp in ms and gives its result and its next state, or
  raises; the colour conversion and the image wrapper are part of that call. The drawing
  functions are parameters.
\<close>

record Category =
  category_name :: "string option"
  score :: "real option"

record BoundingBox =
  origin_x :: int
  origin_y :: int
  width :: int
  height :: int

record Detection =
  categories :: "Category list"
  bounding_box :: BoundingBox

record NormalizedLandmark =
  lm_x :: "real option"
  lm_y :: "real option"
  lm_z :: "real option"
  lm_visibility :: "real option"

datatype 'r session = Session "frame \<Rightarrow> int \<Rightarrow> py_exception + 'r \<times> 'r session"

datatype connections = POSE_LANDMARKS | HAND_CONNECTIONS | FACE_ALL_CONNECTIONS

record drawing_utils =
  draw_detection :: "frame \<Rightarrow> Detection \<Rightarrow> frame"
  draw_landmarks :: "frame \<Rightarrow> NormalizedLandmark list \<Rightarrow> connections \<Rightarrow> frame"

text \<open>\<open>int(x)\<close> on a float truncates towards zero; \<open>x or 0.0\<close> and \<open>s or ""\<close> replace
  \<open>None\<close> (and the falsy value itself) by the default.\<close>

definition py_int :: "real \<Rightarrow> int" where
  "py_int x = (if x \<ge> 0 then \<lfloor>x\<rfloor> else \<lceil>x\<rceil>)"

definition or_zero :: "real option \<Rightarrow> real" where
  "or_zero v = (case v of None \<Rightarrow> 0 | Some x \<Rightarrow> x)"

definition or_empty :: "string option \<Rightarrow> string" where
  "or_empty v = (case v of None \<Rightarrow> [] | Some x \<Rightarrow> x)"

definition opt_float :: "real option \<Rightarrow> pyval" where
  "opt_float v = (case v of None \<Rightarrow> PyNone | Some x \<Rightarrow> PyFloat x)"

definition opt_str :: "string option \<Rightarrow> pyval" where
  "opt_str v = (case v of None \<Rightarrow> PyNone | Some x \<Rightarrow> PyStr x)"

definition bbox_dict :: "BoundingBox \<Rightarrow> pyval" where
  "bbox_dict box =
     PyDict [(''origin_x'', PyInt (origin_x box)), (''origin_y'', PyInt (origin_y box)),
             (''width'', PyInt (width box)), (''height'', PyInt (height box))]"

definition point_xyz :: "NormalizedLandmark \<Rightarrow> pyval" where
  "point_xyz lm =
     PyDict [(''x'', opt_float (lm_x lm)), (''y'', opt_float (lm_y lm)),
             (''z'', PyFloat (or_zero (lm_z lm)))]"

definition not_initialized :: "string \<Rightarrow> real \<Rightarrow> pydict" where
  "not_initialized pid timestamp_s =
     unified_results_schema pid timestamp_s None None
       (Some [(''error'', PyStr ''not initialized'')])"

subsection \<open>plugins/face_detector.py\<close>

record FaceDetectorPlugin =
  fd_detector :: "Detection list session option"

definition FaceDetectorPlugin_init :: FaceDetectorPlugin where
  "FaceDetectorPlugin_init = \<lparr>fd_detector = None\<rparr>"

definition face_detection_dict :: "Detection \<Rightarrow> pyval" where
  "face_detection_dict det =
     PyDict [(''label'', PyStr ''face''),
             (''score'', PyFloat (case categories det of [] \<Rightarrow> 0 | c # cs \<Rightarrow> or_zero (score c))),
             (''bbox'', bbox_dict (bounding_box det))]"

definition FaceDetectorPlugin_process ::
  "drawing_utils \<Rightarrow> FaceDetectorPlugin process_fn" where
  "FaceDetectorPlugin_process du self frame_bgr timestamp_s =
     (case fd_detector self of
        None \<Rightarrow> Inr ((frame_bgr, not_initialized ''face_detector'' timestamp_s), self)
      | Some (Session detect_for_video) \<Rightarrow>
          (case detect_for_video frame_bgr (py_int (timestamp_s * 1000)) of
             Inl e \<Rightarrow> Inl e
           | Inr (result, sess) \<Rightarrow>
               (let annotated = fold (\<lambda>det a. draw_detection du a det) result frame_bgr;
                    detections_list = map face_detection_dict result
                in Inr ((annotated,
                         unified_results_schema ''face_detector'' timestamp_s
                           (Some detections_list) (Some [])
                           (Some [(''num_faces'', PyInt (int (length detections_list)))])),
                        self\<lparr>fd_detector := Some sess\<rparr>))))"

subsection \<open>plugins/object_detector.py\<close>

record ObjectDetectorPlugin =
  od_detector :: "Detection list session option"

definition ObjectDetectorPlugin_init :: ObjectDetectorPlugin where
  "ObjectDetectorPlugin_init = \<lparr>od_detector = None\<rparr>"

definition object_detection_dict :: "Detection \<Rightarrow> pyval" where
  "object_detection_dict det =
     PyDict [(''label'', PyStr (case categories det of [] \<Rightarrow> [] | c # cs \<Rightarrow> or_empty (category_name c))),
             (''score'', PyFloat (case categories det of [] \<Rightarrow> 0 | c # cs \<Rightarrow> or_zero (score c))),
             (''bbox'', bbox_dict (bounding_box det))]"

definition ObjectDetectorPlugin_process ::
  "drawing_utils \<Rightarrow> ObjectDetectorPlugin process_fn" where
  "ObjectDetectorPlugin_process du self frame_bgr timestamp_s =
     (case od_detector self of
        None \<Rightarrow> Inr ((frame_bgr, not_initialized ''object_detector'' timestamp_s), self)
      | Some (Session detect_for_video) \<Rightarrow>
          (case detect_for_video frame_bgr (py_int (timestamp_s * 1000)) of
             Inl e \<Rightarrow> Inl e
           | Inr (result, sess) \<Rightarrow>
               (let annotated = fold (\<lambda>det a. draw_detection du a det) result frame_bgr;
                    detections_list = map object_detection_dict result
                in Inr ((annotated,
                         unified_results_schema ''object_detector'' timestamp_s
                           (Some detections_list) (Some [])
                           (Some [(''num_detections'', PyInt (int (length detections_list)))])),
                        self\<lparr>od_detector := Some sess\<rparr>))))"

subsection \<open>plugins/pose.py\<close>

record PosePlugin =
  pose_landmarker :: "NormalizedLandmark list list session option"

definition PosePlugin_init :: PosePlugin where
  "PosePlugin_init = \<lparr>pose_landmarker = None\<rparr>"

definition pose_point :: "NormalizedLandmark \<Rightarrow> pyval" where
  "pose_point lm =
     PyDict [(''x'', opt_float (lm_x lm)), (''y'', opt_float (lm_y lm)),
             (''z'', PyFloat (or_zero (lm_z lm))),
             (''visibility'', PyFloat (case lm_visibility lm of Some v \<Rightarrow> v | None \<Rightarrow> 0))]"

definition PosePlugin_process :: "drawing_utils \<Rightarrow> PosePlugin process_fn" where
  "PosePlugin_process du self frame_bgr timestamp_s =
     (case pose_landmarker self of
        None \<Rightarrow> Inr ((frame_bgr, not_initialized ''pose'' timestamp_s), self)
      | Some (Session detect_for_video) \<Rightarrow>
          (case detect_for_video frame_bgr (py_int (timestamp_s * 1000)) of
             Inl e \<Rightarrow> Inl e
           | Inr (result, sess) \<Rightarrow>
               (let annotated =
                      fold (\<lambda>lms a. draw_landmarks du a lms POSE_LANDMARKS) result frame_bgr;
                    landmarks_list = map (\<lambda>lms. PyList (map pose_point lms)) result
                in Inr ((annotated,
                         unified_results_schema ''pose'' timestamp_s
                           (Some []) (Some landmarks_list)
                           (Some [(''has_pose'', PyBool (length landmarks_list > 0))])),
                        self\<lparr>pose_landmarker := Some sess\<rparr>))))"

subsection \<open>plugins/facemesh.py\<close>

record FaceMeshPlugin =
  fm_landmarker :: "NormalizedLandmark list list session option"

definition FaceMeshPlugin_init :: FaceMeshPlugin where
  "FaceMeshPlugin_init = \<lparr>fm_landmarker = None\<rparr>"

definition FaceMeshPlugin_process :: "drawing_utils \<Rightarrow> FaceMeshPlugin process_fn" where
  "FaceMeshPlugin_process du self frame_bgr timestamp_s =
     (case fm_landmarker self of
        None \<Rightarrow> Inr ((frame_bgr, not_initialized ''facemesh'' timestamp_s), self)
      | Some (Session detect_for_video) \<Rightarrow>
          (case detect_for_video frame_bgr (py_int (timestamp_s * 1000)) of
             Inl e \<Rightarrow> Inl e
           | Inr (result, sess) \<Rightarrow>
               (let annotated =
                      fold (\<lambda>lms a. draw_landmarks du a lms FACE_ALL_CONNECTIONS) result frame_bgr;
                    landmarks_list = map (\<lambda>lms. PyList (map point_xyz lms)) result
                in Inr ((annotated,
                         unified_results_schema ''facemesh'' timestamp_s
                           (Some []) (Some landmarks_list)
                           (Some [(''num_faces'', PyInt (int (length landmarks_list)))])),
                        self\<lparr>fm_landmarker := Some sess\<rparr>))))"

subsection \<open>plugins/gesture_recognizer.py\<close>

record GestureRecognizerResult =
  hand_landmarks :: "NormalizedLandmark list list"
  gestures :: "Category list list"
  handedness :: "Category list list"

record GestureRecognizerPlugin =
  gr_recognizer :: "GestureRecognizerResult session option"

definition GestureRecognizerPlugin_init :: GestureRecognizerPlugin where
  "GestureRecognizerPlugin_init = \<lparr>gr_recognizer = None\<rparr>"

text \<open>\<open>d[k] = v\<close> on a dictionary: the value is replaced in place, a new key goes last.\<close>

fun dict_set :: "pydict \<Rightarrow> string \<Rightarrow> pyval \<Rightarrow> pydict" where
  "dict_set [] k v = [(k, v)]"
| "dict_set ((k', v') # kvs) k v =
     (if k' = k then (k, v) # kvs else (k', v') # dict_set kvs k v)"

definition gesture_dicts :: "Category list list \<Rightarrow> pydict list" where
  "gesture_dicts gs =
     concat (map (\<lambda>gesture_cats.
                    case gesture_cats of
                      [] \<Rightarrow> []
                    | c # cs \<Rightarrow> [[(''label'', PyStr (or_empty (category_name c))),
                                 (''score'', PyFloat (or_zero (score c)))]]) gs)"

text \<open>The loop over \<open>enumerate(result.handedness)\<close>, with the index \<open>i\<close>.\<close>

fun set_handedness :: "nat \<Rightarrow> Category list list \<Rightarrow> pydict list \<Rightarrow> pydict list" where
  "set_handedness i [] ds = ds"
| "set_handedness i (handedness_cats # hs) ds =
     (let hand_label = (case handedness_cats of [] \<Rightarrow> PyStr [] | c # cs \<Rightarrow> opt_str (category_name c))
      in set_handedness (Suc i) hs
           (if i < length ds then ds[i := dict_set (ds ! i) ''handedness'' hand_label] else ds))"

definition GestureRecognizerPlugin_process ::
  "drawing_utils \<Rightarrow> GestureRecognizerPlugin process_fn" where
  "GestureRecognizerPlugin_process du self frame_bgr timestamp_s =
     (case gr_recognizer self of
        None \<Rightarrow> Inr ((frame_bgr, not_initialized ''gesture_recognizer'' timestamp_s), self)
      | Some (Session recognize_for_video) \<Rightarrow>
          (case recognize_for_video frame_bgr (py_int (timestamp_s * 1000)) of
             Inl e \<Rightarrow> Inl e
           | Inr (result, sess) \<Rightarrow>
               (let annotated =
                      fold (\<lambda>lms a. draw_landmarks du a lms HAND_CONNECTIONS)
                        (hand_landmarks result) frame_bgr;
                    landmarks_list = map (\<lambda>lms. PyList (map point_xyz lms)) (hand_landmarks result);
                    detections_list =
                      set_handedness 0 (handedness result) (gesture_dicts (gestures result))
                in Inr ((annotated,
                         unified_results_schema ''gesture_recognizer'' timestamp_s
                           (Some (map PyDict detections_list)) (Some landmarks_list)
                           (Some [(''num_hands'', PyInt (int (length landmarks_list)))])),
                        self\<lparr>gr_recognizer := Some sess\<rparr>))))"

subsection \<open>The built-in plugins of the source tree as one type\<close>

datatype builtin_plugin =
    FaceDetector FaceDetectorPlugin
  | ObjectDetector ObjectDetectorPlugin
  | Pose PosePlugin
  | FaceMesh FaceMeshPlugin
  | GestureRecognizer GestureRecognizerPlugin

fun builtin_plugin_id :: "builtin_plugin \<Rightarrow> string" where
  "builtin_plugin_id (FaceDetector p) = ''face_detector''"
| "builtin_plugin_id (ObjectDetector p) = ''object_detector''"
| "builtin_plugin_id (Pose p) = ''pose''"
| "builtin_plugin_id (FaceMesh p) = ''facemesh''"
| "builtin_plugin_id (GestureRecognizer p) = ''gesture_recognizer''"

text \<open>Whether the session handle of the plugin is \<open>None\<close> (before \<open>init\<close>, or after \<open>close\<close>).\<close>

fun session_is_None :: "builtin_plugin \<Rightarrow> bool" where
  "session_is_None (FaceDetector p) = (fd_detector p = None)"
| "session_is_None (ObjectDetector p) = (od_detector p = None)"
| "session_is_None (Pose p) = (pose_landmarker p = None)"
| "session_is_None (FaceMesh p) = (fm_landmarker p = None)"
| "session_is_None (GestureRecognizer p) = (gr_recognizer p = None)"

definition lift_result ::
  "('a \<Rightarrow> builtin_plugin) \<Rightarrow> py_exception + (frame \<times> pydict) \<times> 'a
     \<Rightarrow> py_exception + (frame \<times> pydict) \<times> builtin_plugin" where
  "lift_result C r = (case r of Inl e \<Rightarrow> Inl e | Inr (out, p) \<Rightarrow> Inr (out, C p))"

fun process :: "drawing_utils \<Rightarrow> builtin_plugin process_fn" where
  "process du (FaceDetector p) f t = lift_result FaceDetector (FaceDetectorPlugin_process du p f t)"
| "process du (ObjectDetector p) f t = lift_result ObjectDetector (ObjectDetectorPlugin_process du p f t)"
| "process du (Pose p) f t = lift_result Pose (PosePlugin_process du p f t)"
| "process du (FaceMesh p) f t = lift_result FaceMesh (FaceMeshPlugin_process du p f t)"
| "process du (GestureRecognizer p) f t =
     lift_result GestureRecognizer (GestureRecognizerPlugin_process du p f t)"

section \<open>Notions used to state the properties\<close>

text \<open>Scripts of calls on a counter, the intervals between successive clock readings, and
  the most recent \<open>n\<close> elements of a list.\<close>

datatype fps_call = Tick real | Reset

fun fps_calls :: "fps_call list \<Rightarrow> FPSCounter \<Rightarrow> FPSCounter" where
  "fps_calls [] c = c"
| "fps_calls (Tick t # cs) c = fps_calls cs (fst (tick t c))"
| "fps_calls (Reset # cs) c = fps_calls cs (reset c)"

fun intervals :: "real list \<Rightarrow> real list" where
  "intervals (t0 # t1 # ts) = (t1 - t0) # intervals (t1 # ts)"
| "intervals ts = []"

definition newest :: "nat \<Rightarrow> 'a list \<Rightarrow> 'a list" where
  "newest n xs = drop (length xs - n) xs"

definition mean :: "real list \<Rightarrow> real" where
  "mean xs = sum_list xs / real (length xs)"

text \<open>The plugin alone, fed a list of frames with their timestamps: the outputs in order
  and the state of the plugin afterwards, or the first exception.\<close>

fun feed :: "'p process_fn \<Rightarrow> 'p \<Rightarrow> (frame \<times> real) list \<Rightarrow> py_exception + (frame \<times> pydict) list \<times> 'p" where
  "feed proc p [] = Inr ([], p)"
| "feed proc p ((f, t) # fts) =
     (case proc p f t of
        Inl e \<Rightarrow> Inl e
      | Inr (out, p') \<Rightarrow>
          (case feed proc p' fts of
             Inl e \<Rightarrow> Inl e
           | Inr (outs, p'') \<Rightarrow> Inr (out # outs, p'')))"

text \<open>The frame and results carried by a frame-ready signal.\<close>

fun payload :: "signal \<Rightarrow> (frame \<times> pydict) option" where
  "payload (frame_processed f res fps lat avg) = Some (f, res)"
| "payload (error_occurred msg) = None"
| "payload stopped = None"

fun timing :: "signal \<Rightarrow> (real \<times> real \<times> real) option" where
  "timing (frame_processed f res fps lat avg) = Some (fps, lat, avg)"
| "timing (error_occurred msg) = None"
| "timing stopped = None"

text \<open>The keys of the unified schema, and whether a dictionary has them all.\<close>

definition unified_keys :: "string list" where
  "unified_keys = [''pipeline'', ''timestamp_s'', ''detections'', ''landmarks'', ''metadata'']"

definition has_unified_keys :: "pydict \<Rightarrow> bool" where
  "has_unified_keys d = list_all (\<lambda>k. map_of d k \<noteq> None) unified_keys"

text \<open>A capture source that is open on a handle whose coming reads deliver the frames
  \<open>fs\<close> and then whatever \<open>rest\<close> says.\<close>

definition delivers :: "VideoCaptureSource \<Rightarrow> frame list \<Rightarrow> (bool \<times> frame option) list \<Rightarrow> bool" where
  "delivers s fs rest =
     (case cap s of
        None \<Rightarrow> False
      | Some h \<Rightarrow> vc_isOpened h \<and> vc_pending h = map (\<lambda>f. (True, Some f)) fs @ rest)"

text \<open>The next read of the source fails: nothing is pending, or the read reports failure
  or hands back no frame.\<close>

definition read_fails :: "(bool \<times> frame option) list \<Rightarrow> bool" where
  "read_fails rest =
     (case rest of [] \<Rightarrow> True | (ok, fr) # rs \<Rightarrow> (if ok then fr = None else True))"

text \<open>Both windows of a counter are within their bounds.\<close>

definition bounded :: "FPSCounter \<Rightarrow> bool" where
  "bounded c \<longleftrightarrow> length (items (frame_times c)) \<le> maxlen (frame_times c)
      \<and> length (items (ra_values (rolling c))) \<le> maxlen (ra_values (rolling c))"

text \<open>A source that was just constructed, in a world with no open handle; the invariant
  that ties the open handles to the one the source holds; and a driver on which every
  device opens.\<close>

definition fresh_source :: "world \<times> VideoCaptureSource" where
  "fresh_source = (world_init, VideoCaptureSource_init)"

definition owns :: "world \<times> VideoCaptureSource \<Rightarrow> bool" where
  "owns ws \<longleftrightarrow> live (fst ws) = held (snd ws)
      \<and> (case cap (snd ws) of None \<Rightarrow> source_path (snd ws) = None | Some h \<Rightarrow> vc_id h < next_id (fst ws))"

definition driver0 :: driver where
  "driver0 = \<lparr>win32 = False, can_open = (\<lambda>d. True), stream = (\<lambda>d. [])\<rparr>"

text \<open>Notions for the runner: every reading of the clock inside \<open>tick\<close> is later than
  the one before; no interval of zero in the window; several signals emitted in front of
  the rest of a run.\<close>


fun clock_advances :: "real option \<Rightarrow> real list \<Rightarrow> bool" where
  "clock_advances lt [] = True"
| "clock_advances None (t # ts) = clock_advances (Some t) ts"
| "clock_advances (Some lt) (t # ts) = (lt < t \<and> clock_advances (Some t) ts)"

definition no_zero :: "FPSCounter \<Rightarrow> bool" where
  "no_zero c \<longleftrightarrow> 0 \<notin> set (items (frame_times c))"

definition emit_all :: "signal list \<Rightarrow> (signal list \<times> 'a) option \<Rightarrow> (signal list \<times> 'a) option" where
  "emit_all sgs rest = (case rest of None \<Rightarrow> None | Some (sgs', x) \<Rightarrow> Some (sgs @ sgs', x))"

text \<open>Examples: a source open on a camera that delivers the given frames, a pass through
  the loop at clock reading \<open>t\<close> with no stop requested, a plugin that counts its calls
  and raises on the fifth, and a runner built, given its plugin and started through the
  interface.\<close>


definition source_with :: "frame list \<Rightarrow> VideoCaptureSource" where
  "source_with fs =
     \<lparr>cap = Some \<lparr>vc_id = 0, vc_device = Camera 0 CAP_ANY, vc_isOpened = True,
                  vc_pending = map (\<lambda>f. (True, Some f)) fs\<rparr>,
      source_path = None, camera_index = 0\<rparr>"

definition env_at :: "real \<Rightarrow> loop_env" where
  "env_at t = \<lparr>stop_called = False, t_frame = t, t_tick = t + 1 / 100\<rparr>"

definition fails_on_5th :: "nat process_fn" where
  "fails_on_5th n f t =
     (if n = 4 then Inl (PyExc True ''RuntimeError'' ''model failure'')
      else Inr ((f, unified_results_schema ''demo'' t None None None), Suc n))"

definition started_runner :: "'p option \<Rightarrow> frame list \<Rightarrow> 'p FrameProcessorRunner" where
  "started_runner p fs = fst (start (set_plugin p (FrameProcessorRunner_init (source_with fs))))"

text \<open>A counter that has ticked before, and a runner with its plugin set that was not
  started.\<close>

definition stale_counter :: FPSCounter where
  "stale_counter = ticks [1, 2, 4] (FPSCounter_init 30)"

definition idle_runner :: "nat FrameProcessorRunner" where
  "idle_runner = set_plugin (Some 0) (FrameProcessorRunner_init (source_with [Frame 1, Frame 2]))"


definition builtin_module :: "string \<Rightarrow> module_source" where
  "builtin_module name = Module (Some \<lparr>plugin_id = name, display_name = name\<rparr>) None"

definition dir_without_hands :: plugins_dir where
  "dir_without_hands =
     \<lparr>module_file =
        (\<lambda>n. if n \<in> set [''pose'', ''facemesh'', ''object_detector'', ''face_detector'',
                            ''gesture_recognizer'']
             then builtin_module n else NoFile),
      glob_py = [''__init__.py'', ''base.py'', ''face_detector.py'', ''facemesh.py'',
                 ''gesture_recognizer.py'', ''object_detector.py'', ''pose.py'']\<rparr>"


text \<open>Drawing functions that leave the frame as it is.\<close>

definition no_drawing :: drawing_utils where
  "no_drawing = \<lparr>draw_detection = (\<lambda>f d. f), draw_landmarks = (\<lambda>f l c. f)\<rparr>"

text \<open>A plugin that returns on its first call and leaves the interpreter on the second
  (\<open>SystemExit\<close> is not an instance of \<open>Exception\<close>), and a pass through the loop with its two
  clock readings given.\<close>

definition exits_on_2nd :: "nat process_fn" where
  "exits_on_2nd n f t =
     (if n = 1 then Inl (PyExc False ''SystemExit'' ''1'')
      else Inr ((f, unified_results_schema ''demo'' t None None None), Suc n))"

definition pass_with :: "real \<Rightarrow> real \<Rightarrow> loop_env" where
  "pass_with tf tt = \<lparr>stop_called = False, t_frame = tf, t_tick = tt\<rparr>"

section \<open>Properties of the unified result\<close>

text \<open>
  C5. Whatever arguments the constructor of the unified result is given, also when
  detections, landmarks or metadata are omitted or \<open>None\<close>, the returned dictionary binds
  the keys \<open>detections\<close> and \<open>landmarks\<close> to lists (the given list, or the empty list), and
  it has exactly the five keys of the schema.
\<close>

theorem unified_results_schema_lists_present:
  "map_of (unified_results_schema p t d l m) ''detections''
     = Some (PyList (case d of Some x \<Rightarrow> x | None \<Rightarrow> []))
   \<and> map_of (unified_results_schema p t d l m) ''landmarks''
     = Some (PyList (case l of Some x \<Rightarrow> x | None \<Rightarrow> []))
   \<and> map fst (unified_results_schema p t d l m) = unified_keys
   \<and> has_unified_keys (unified_results_schema p t d l m)"
  by (simp add: unified_results_schema_def unified_keys_def has_unified_keys_def)

theorem unified_results_schema_lists_present_witness:
  "map_of (unified_results_schema ''pose'' 1 None None None) ''detections'' = Some (PyList [])
   \<and> map_of (unified_results_schema ''pose'' 1 None None None) ''landmarks'' = Some (PyList [])
   \<and> has_unified_keys (unified_results_schema ''pose'' 1 None None None)"
  using unified_results_schema_lists_present[of "''pose''" 1 None None None]
  by simp

section \<open>Properties of the metrics\<close>

lemma deque_append_last:
  "0 < maxlen d \<Longrightarrow> items (deque_append d v) \<noteq> [] \<and> last (items (deque_append d v)) = v"
  by (cases "items d") (auto simp: deque_append_def Let_def)

lemma deque_append_maxlen [simp]: "maxlen (deque_append d v) = maxlen d"
  by (simp add: deque_append_def Let_def)

lemma deque_append_newest:
  assumes "length (items d) \<le> maxlen d"
  shows "items (deque_append d v) = newest (maxlen d) (items d @ [v])"
proof (cases "length (items d) = maxlen d")
  case True
  then show ?thesis
    by (cases "items d") (auto simp: deque_append_def Let_def newest_def)
next
  case False
  with assms have "length (items d) < maxlen d" by simp
  then show ?thesis
    by (auto simp: deque_append_def Let_def newest_def)
qed

lemma tick_first:
  "tick now (reset c) = (reset c\<lparr>last_time := Some now\<rparr>, Inr (0, 0))"
  by (simp add: tick_def reset_def deque_clear_def)

lemma tick_next:
  assumes "0 < maxlen (frame_times c)" "last_time c = Some lt" "now \<noteq> lt"
  shows "tick now c =
     (c\<lparr>last_time := Some now, frame_times := deque_append (frame_times c) (now - lt),
        rolling := add ((now - lt) * 1000) (rolling c)\<rparr>,
      Inr (1 / (now - lt), (now - lt) * 1000))"
  using assms deque_append_last[of "frame_times c" "now - lt"]
  by (simp add: tick_def Let_def)

text \<open>When the clock has not advanced since the previous tick, the division raises.\<close>

lemma tick_zero_interval:
  assumes "0 < maxlen (frame_times c)" "last_time c = Some lt"
  shows "snd (tick lt c) = Inl ZeroDivisionError"
  using assms deque_append_last[of "frame_times c" "0"]
  by (simp add: tick_def Let_def)

lemma newest_length: "length (newest n xs) \<le> n"
  by (simp add: newest_def)

lemma newest_append: "newest n (newest n xs @ ys) = newest n (xs @ ys)"
proof (cases "length xs \<le> n")
  case True
  then show ?thesis by (simp add: newest_def)
next
  case False
  then have "length xs - n + n = length xs" by simp
  moreover have "length xs + length ys - n = length ys + (length xs - n)"
    using False by simp
  ultimately show ?thesis
    using False by (simp add: newest_def add.commute)
qed

lemma newest_Nil [simp]: "newest n [] = []"
  by (simp add: newest_def)

lemma adds_items:
  "length (items (ra_values r)) \<le> maxlen (ra_values r) \<Longrightarrow>
     items (ra_values (adds vs r)) = newest (maxlen (ra_values r)) (items (ra_values r) @ vs)
     \<and> maxlen (ra_values (adds vs r)) = maxlen (ra_values r)"
proof (induction vs arbitrary: r)
  case Nil
  then show ?case by (simp add: newest_def)
next
  case (Cons v vs)
  let ?r = "add v r"
  have i: "items (ra_values ?r) = newest (maxlen (ra_values r)) (items (ra_values r) @ [v])"
    using Cons.prems by (simp add: add_def deque_append_newest)
  have m: "maxlen (ra_values ?r) = maxlen (ra_values r)"
    by (simp add: add_def)
  have "length (items (ra_values ?r)) \<le> maxlen (ra_values ?r)"
    by (simp add: i m newest_length)
  from Cons.IH[OF this] show ?case
    by (simp add: i m newest_append)
qed

lemma fst_tick:
  "fst (tick now c) =
     (case last_time c of
        None \<Rightarrow> c\<lparr>last_time := Some now\<rparr>
      | Some lt \<Rightarrow> c\<lparr>last_time := Some now,
                      frame_times := deque_append (frame_times c) (now - lt),
                      rolling := add ((now - lt) * 1000) (rolling c)\<rparr>)"
  by (simp add: tick_def Let_def split: option.splits)

lemma deque_append_bounded:
  "length (items d) \<le> maxlen d \<Longrightarrow> length (items (deque_append d v)) \<le> maxlen d"
  by (simp add: deque_append_newest newest_length)

lemma tick_bounded: "bounded c \<Longrightarrow> bounded (fst (tick now c))"
  by (auto simp: bounded_def fst_tick add_def deque_append_bounded split: option.splits)

lemma reset_bounded: "bounded (reset c)"
  by (simp add: bounded_def reset_def clear_def deque_clear_def)

lemma tick_maxlen:
  "maxlen (frame_times (fst (tick now c))) = maxlen (frame_times c)
   \<and> maxlen (ra_values (rolling (fst (tick now c)))) = maxlen (ra_values (rolling c))"
  by (simp add: fst_tick add_def split: option.splits)

lemma reset_maxlen:
  "maxlen (frame_times (reset c)) = maxlen (frame_times c)
   \<and> maxlen (ra_values (rolling (reset c))) = maxlen (ra_values (rolling c))"
  by (simp add: reset_def clear_def deque_clear_def)

lemma fps_calls_bounded:
  "bounded c \<Longrightarrow> bounded (fps_calls cs c)
     \<and> maxlen (frame_times (fps_calls cs c)) = maxlen (frame_times c)
     \<and> maxlen (ra_values (rolling (fps_calls cs c))) = maxlen (ra_values (rolling c))"
proof (induction cs arbitrary: c)
  case Nil
  then show ?case by simp
next
  case (Cons a cs)
  show ?case
  proof (cases a)
    case (Tick t)
    with Cons.IH[OF tick_bounded[OF Cons.prems, of t]] show ?thesis
      by (simp add: tick_maxlen)
  next
    case Reset
    with Cons.IH[OF reset_bounded, of c] show ?thesis
      by (simp add: reset_maxlen)
  qed
qed

lemma ticks_window:
  "bounded c \<Longrightarrow> last_time c = Some lt \<Longrightarrow>
     items (frame_times (ticks ts c))
       = newest (maxlen (frame_times c)) (items (frame_times c) @ intervals (lt # ts))
     \<and> items (ra_values (rolling (ticks ts c)))
       = newest (maxlen (ra_values (rolling c)))
           (items (ra_values (rolling c)) @ map (\<lambda>d. d * 1000) (intervals (lt # ts)))"
proof (induction ts arbitrary: c lt)
  case Nil
  then show ?case by (simp add: newest_def bounded_def)
next
  case (Cons t ts)
  let ?c = "fst (tick t c)"
  have b: "bounded ?c" using Cons.prems(1) by (rule tick_bounded)
  have l: "last_time ?c = Some t" by (simp add: fst_tick split: option.splits)
  have f: "items (frame_times ?c) = newest (maxlen (frame_times c)) (items (frame_times c) @ [t - lt])"
    using Cons.prems by (simp add: fst_tick bounded_def deque_append_newest)
  have r: "items (ra_values (rolling ?c))
      = newest (maxlen (ra_values (rolling c))) (items (ra_values (rolling c)) @ [(t - lt) * 1000])"
    using Cons.prems by (simp add: fst_tick bounded_def add_def deque_append_newest)
  from Cons.IH[OF b l] show ?case
    by (simp add: f r tick_maxlen newest_append)
qed


lemma init_bounded: "bounded (FPSCounter_init n)"
  by (simp add: bounded_def FPSCounter_init_def RollingAverage_init_def deque_new_def)

lemma init_maxlen:
  "maxlen (frame_times (FPSCounter_init n)) = n \<and> maxlen (ra_values (rolling (FPSCounter_init n))) = n"
  by (simp add: FPSCounter_init_def RollingAverage_init_def deque_new_def)

lemma ticks_after_reset:
  "items (frame_times (ticks ts (reset c))) = newest (maxlen (frame_times c)) (intervals ts)
   \<and> items (ra_values (rolling (ticks ts (reset c))))
       = newest (maxlen (ra_values (rolling c))) (map (\<lambda>d. d * 1000) (intervals ts))"
proof (cases ts)
  case Nil
  then show ?thesis by (simp add: reset_def clear_def deque_clear_def)
next
  case (Cons t ts')
  let ?c = "fst (tick t (reset c))"
  have c: "?c = reset c\<lparr>last_time := Some t\<rparr>" by (simp add: tick_first)
  have b: "bounded ?c" by (rule tick_bounded[OF reset_bounded])
  have l: "last_time ?c = Some t" by (simp add: c)
  have e: "items (frame_times ?c) = [] \<and> items (ra_values (rolling ?c)) = []
      \<and> maxlen (frame_times ?c) = maxlen (frame_times c)
      \<and> maxlen (ra_values (rolling ?c)) = maxlen (ra_values (rolling c))"
    unfolding c by (simp add: reset_def clear_def deque_clear_def)
  from ticks_window[OF b l, of ts'] show ?thesis
    by (simp add: Cons e)
qed

lemma tick_empty_window:
  assumes "maxlen (frame_times c) = 0" "items (frame_times c) = []"
  shows "snd (tick now c) = Inr (0, case last_time c of None \<Rightarrow> 0 | Some lt \<Rightarrow> (now - lt) * 1000)
     \<and> items (frame_times (fst (tick now c))) = []"
  using assms
  by (cases "last_time c") (simp_all add: tick_def Let_def deque_append_def)

lemma window0_empty:
  "maxlen (frame_times (fps_calls cs (FPSCounter_init 0))) = 0
   \<and> items (frame_times (fps_calls cs (FPSCounter_init 0))) = []"
proof -
  let ?c = "fps_calls cs (FPSCounter_init 0)"
  from fps_calls_bounded[OF init_bounded, of cs 0]
  have b: "bounded ?c" and m0: "maxlen (frame_times ?c) = maxlen (frame_times (FPSCounter_init 0))"
    by blast+
  have m: "maxlen (frame_times ?c) = 0"
    unfolding m0 by (simp add: init_maxlen)
  from b have "length (items (frame_times ?c)) \<le> maxlen (frame_times ?c)"
    unfolding bounded_def by blast
  with m have "length (items (frame_times ?c)) = 0" by simp
  with m show ?thesis by simp
qed

lemma tick_window0:
  "snd (tick now (fps_calls cs (FPSCounter_init 0)))
       = Inr (0, case last_time (fps_calls cs (FPSCounter_init 0)) of
                   None \<Rightarrow> 0 | Some lt \<Rightarrow> (now - lt) * 1000)
   \<and> items (frame_times (fst (tick now (fps_calls cs (FPSCounter_init 0))))) = []"
proof -
  from window0_empty[of cs]
  have "maxlen (frame_times (fps_calls cs (FPSCounter_init 0))) = 0"
    "items (frame_times (fps_calls cs (FPSCounter_init 0))) = []"
    by blast+
  then show ?thesis by (rule tick_empty_window)
qed

text \<open>
  C6 (as the code has it). The first \<open>tick\<close> after a \<open>reset\<close> returns fps 0 and latency 0.
  On a counter with a window of positive size, a later \<open>tick\<close> whose clock reading differs
  from the previous one by \<open>\<Delta> = now - lt\<close>, not zero, returns latency \<open>\<Delta> * 1000\<close> and
  fps \<open>1 / \<Delta>\<close>, and \<open>\<Delta>\<close> is appended to the bounded window of intervals, which then
  holds the newest \<open>maxlen\<close> intervals. On a counter built with a window of size 0 the
  window stays empty and every \<open>tick\<close> returns fps 0, with the latency \<open>\<Delta> * 1000\<close>.
\<close>

theorem tick_first_then_reciprocal:
  "snd (tick t0 (reset c)) = Inr (0, 0)
   \<and> (0 < maxlen (frame_times c) \<and> t1 \<noteq> t0 \<longrightarrow>
        snd (tick t1 (fst (tick t0 (reset c)))) = Inr (1 / (t1 - t0), (t1 - t0) * 1000))
   \<and> (0 < maxlen (frame_times c) \<and> last_time c = Some lt \<and> now \<noteq> lt \<longrightarrow>
        snd (tick now c) = Inr (1 / (now - lt), (now - lt) * 1000)
        \<and> frame_times (fst (tick now c)) = deque_append (frame_times c) (now - lt)
        \<and> last (items (frame_times (fst (tick now c)))) = now - lt
        \<and> (length (items (frame_times c)) \<le> maxlen (frame_times c) \<longrightarrow>
             items (frame_times (fst (tick now c)))
               = newest (maxlen (frame_times c)) (items (frame_times c) @ [now - lt])))
   \<and> snd (tick now (fps_calls cs (FPSCounter_init 0)))
       = Inr (0, case last_time (fps_calls cs (FPSCounter_init 0)) of
                   None \<Rightarrow> 0 | Some lt \<Rightarrow> (now - lt) * 1000)
   \<and> items (frame_times (fst (tick now (fps_calls cs (FPSCounter_init 0))))) = []"
proof (intro conjI impI)
  show "snd (tick t0 (reset c)) = Inr (0, 0)"
    by (simp add: tick_first)
next
  assume a: "0 < maxlen (frame_times c) \<and> t1 \<noteq> t0"
  let ?c1 = "reset c\<lparr>last_time := Some t0\<rparr>"
  have "0 < maxlen (frame_times ?c1)" "last_time ?c1 = Some t0"
    using a by (simp_all add: reset_def deque_clear_def)
  then show "snd (tick t1 (fst (tick t0 (reset c)))) = Inr (1 / (t1 - t0), (t1 - t0) * 1000)"
    using a tick_next[of ?c1 t0 t1] by (simp add: tick_first)
next
  assume a: "0 < maxlen (frame_times c) \<and> last_time c = Some lt \<and> now \<noteq> lt"
  then have t: "tick now c =
     (c\<lparr>last_time := Some now, frame_times := deque_append (frame_times c) (now - lt),
        rolling := add ((now - lt) * 1000) (rolling c)\<rparr>,
      Inr (1 / (now - lt), (now - lt) * 1000))"
    using tick_next[of c lt now] by simp
  show "snd (tick now c) = Inr (1 / (now - lt), (now - lt) * 1000)"
    by (simp add: t)
  show "frame_times (fst (tick now c)) = deque_append (frame_times c) (now - lt)"
    by (simp add: t)
  show "last (items (frame_times (fst (tick now c)))) = now - lt"
    using a deque_append_last[of "frame_times c" "now - lt"] by (simp add: t)
  assume "length (items (frame_times c)) \<le> maxlen (frame_times c)"
  then show "items (frame_times (fst (tick now c)))
               = newest (maxlen (frame_times c)) (items (frame_times c) @ [now - lt])"
    by (simp add: t deque_append_newest)
next
  show "snd (tick now (fps_calls cs (FPSCounter_init 0)))
       = Inr (0, case last_time (fps_calls cs (FPSCounter_init 0)) of
                   None \<Rightarrow> 0 | Some lt \<Rightarrow> (now - lt) * 1000)"
    using tick_window0[of now cs] by blast
next
  show "items (frame_times (fst (tick now (fps_calls cs (FPSCounter_init 0))))) = []"
    using tick_window0[of now cs] by blast
qed

theorem tick_first_then_reciprocal_witness:
  "snd (tick 2 (reset (FPSCounter_init 30))) = Inr (0, 0)
   \<and> 0 < maxlen (frame_times (FPSCounter_init 30)) \<and> (5/2 :: real) \<noteq> 2
   \<and> snd (tick (5/2) (fst (tick 2 (reset (FPSCounter_init 30))))) = Inr (2, 500)
   \<and> 0 < maxlen (frame_times (fst (tick 2 (FPSCounter_init 30))))
   \<and> last_time (fst (tick 2 (FPSCounter_init 30))) = Some 2
   \<and> snd (tick (5/2) (fst (tick 2 (FPSCounter_init 30)))) = Inr (2, 500)
   \<and> items (frame_times (fst (tick (5/2) (fst (tick 2 (FPSCounter_init 30)))))) = [1/2]
   \<and> snd (tick 3 (fps_calls [Tick 1] (FPSCounter_init 0))) = Inr (0, 2000)"
proof -
  let ?c0 = "FPSCounter_init 30"
  let ?c1 = "fst (tick 2 ?c0)"
  have h0: "0 < maxlen (frame_times ?c0) \<and> (5/2 :: real) \<noteq> 2"
    by (simp add: FPSCounter_init_def deque_new_def)
  have h1: "0 < maxlen (frame_times ?c1) \<and> last_time ?c1 = Some 2 \<and> (5/2 :: real) \<noteq> 2"
    by (simp add: FPSCounter_init_def deque_new_def tick_def)
  have l1: "length (items (frame_times ?c1)) \<le> maxlen (frame_times ?c1)"
    by (simp add: FPSCounter_init_def deque_new_def tick_def)
  have n: "newest (maxlen (frame_times ?c1)) (items (frame_times ?c1) @ [5/2 - 2]) = [1/2]"
    by (simp add: FPSCounter_init_def deque_new_def tick_def newest_def)
  have a: "snd (tick 2 (reset ?c0)) = Inr (0, 0)
      \<and> snd (tick (5/2) (fst (tick 2 (reset ?c0)))) = Inr (1 / (5/2 - 2), (5/2 - 2) * 1000)"
    using tick_first_then_reciprocal[of 2 ?c0 "5/2" 2 "5/2" "[]"] h0 by blast
  have b: "snd (tick (5/2) ?c1) = Inr (1 / (5/2 - 2), (5/2 - 2) * 1000)
      \<and> items (frame_times (fst (tick (5/2) ?c1)))
          = newest (maxlen (frame_times ?c1)) (items (frame_times ?c1) @ [5/2 - 2])"
    using tick_first_then_reciprocal[of 2 ?c1 "5/2" 2 "5/2" "[]"] h1 l1 by blast
  have z: "snd (tick 3 (fps_calls [Tick 1] (FPSCounter_init 0)))
      = Inr (0, case last_time (fps_calls [Tick 1] (FPSCounter_init 0)) of
                  None \<Rightarrow> 0 | Some lt \<Rightarrow> (3 - lt) * 1000)"
    using tick_first_then_reciprocal[of 2 ?c0 "5/2" 2 3 "[Tick 1]"] by blast
  have lz: "last_time (fps_calls [Tick 1] (FPSCounter_init 0)) = Some 1"
    by (simp add: fst_tick FPSCounter_init_def)
  have z': "snd (tick 3 (fps_calls [Tick 1] (FPSCounter_init 0))) = Inr (0, 2000)"
    unfolding z lz by simp
  from a b h0 h1 z' show ?thesis
    unfolding n by simp
qed

text \<open>A counter built with a window of size 0, ticked at 2 and at 5/2: the interval is
  1/2, its reciprocal is 2, and the fps returned is 0.\<close>

theorem tick_zero_window_counterexample:
  "snd (tick (5/2) (fst (tick 2 (reset (FPSCounter_init 0))))) = Inr (0, 500)
   \<and> (1 / (5/2 - 2) :: real) = 2"
  by (simp add: tick_def Let_def reset_def clear_def deque_clear_def FPSCounter_init_def
        RollingAverage_init_def deque_new_def deque_append_def add_def)

text \<open>
  C7. Under any sequence of \<open>add\<close> calls the window of a \<open>RollingAverage\<close> of size \<open>n\<close> holds
  the newest \<open>n\<close> values in order (so at most \<open>n\<close>, the oldest leaving first), and its
  average is their arithmetic mean, or 0 when it is empty. Under any sequence of
  \<open>tick\<close> and \<open>reset\<close> calls the two windows of an \<open>FPSCounter\<close> of size \<open>n\<close> hold at most
  \<open>n\<close> samples and \<open>rolling_average_ms\<close> is the mean of the latencies retained (0 when
  empty); after a \<open>reset\<close> and ticks at the readings \<open>ts\<close> they hold the newest \<open>n\<close>
  intervals and latencies. After \<open>reset\<close> the windows are empty and
  \<open>rolling_average_ms\<close> is 0. The runner's counter has size 30.
\<close>

theorem rolling_window_bounded_fifo_mean:
  "items (ra_values (adds vs (RollingAverage_init n))) = newest n vs
   \<and> count (adds vs (RollingAverage_init n)) \<le> n
   \<and> average (adds vs (RollingAverage_init n))
       = (if newest n vs = [] then 0 else mean (newest n vs))
   \<and> length (items (frame_times (fps_calls cs (FPSCounter_init n)))) \<le> n
   \<and> count (rolling (fps_calls cs (FPSCounter_init n))) \<le> n
   \<and> rolling_average_ms (fps_calls cs (FPSCounter_init n))
       = (if items (ra_values (rolling (fps_calls cs (FPSCounter_init n)))) = [] then 0
          else mean (items (ra_values (rolling (fps_calls cs (FPSCounter_init n))))))
   \<and> items (frame_times (ticks ts (reset (fps_calls cs (FPSCounter_init n)))))
       = newest n (intervals ts)
   \<and> items (ra_values (rolling (ticks ts (reset (fps_calls cs (FPSCounter_init n))))))
       = newest n (map (\<lambda>d. d * 1000) (intervals ts))
   \<and> count (rolling (reset c)) = 0
   \<and> rolling_average_ms (reset c) = 0
   \<and> items (frame_times (reset c)) = []
   \<and> last_time (reset c) = None
   \<and> fps_counter (FrameProcessorRunner_init src) = FPSCounter_init 30"
proof -
  let ?r = "RollingAverage_init n"
  let ?c = "fps_calls cs (FPSCounter_init n)"
  have r0: "length (items (ra_values ?r)) \<le> maxlen (ra_values ?r)"
    by (simp add: RollingAverage_init_def deque_new_def)
  have a: "items (ra_values (adds vs ?r)) = newest n vs"
    using adds_items[OF r0, of vs] by (simp add: RollingAverage_init_def deque_new_def)
  have b: "bounded ?c \<and> maxlen (frame_times ?c) = n \<and> maxlen (ra_values (rolling ?c)) = n"
    using fps_calls_bounded[OF init_bounded, of cs n] by (simp add: init_maxlen)
  have t: "items (frame_times (ticks ts (reset ?c))) = newest n (intervals ts)
      \<and> items (ra_values (rolling (ticks ts (reset ?c))))
          = newest n (map (\<lambda>d. d * 1000) (intervals ts))"
    using ticks_after_reset[of ts ?c] b by simp
  have 1: "count (adds vs ?r) \<le> n"
    by (simp add: count_def a newest_length)
  have 2: "average (adds vs ?r) = (if newest n vs = [] then 0 else mean (newest n vs))"
    by (simp add: average_def a mean_def)
  have 3: "length (items (frame_times ?c)) \<le> n" "count (rolling ?c) \<le> n"
    using b by (simp_all add: bounded_def count_def)
  have 4: "rolling_average_ms ?c
       = (if items (ra_values (rolling ?c)) = [] then 0 else mean (items (ra_values (rolling ?c))))"
    by (simp add: rolling_average_ms_def average_def mean_def)
  have 5: "count (rolling (reset c)) = 0" "rolling_average_ms (reset c) = 0"
    "items (frame_times (reset c)) = []" "last_time (reset c) = None"
    by (simp_all add: reset_def clear_def deque_clear_def count_def rolling_average_ms_def average_def)
  have 6: "fps_counter (FrameProcessorRunner_init src) = FPSCounter_init 30"
    by (simp add: FrameProcessorRunner_init_def)
  from a 1 2 3 4 t 5 6 show ?thesis by blast
qed

theorem rolling_window_bounded_fifo_mean_witness:
  "items (ra_values (adds [10, 20, 30] (RollingAverage_init 2))) = [20, 30]
   \<and> average (adds [10, 20, 30] (RollingAverage_init 2)) = 25
   \<and> items (frame_times (ticks [1, 2, 4, 7] (reset (fps_calls [Tick 0, Tick 5] (FPSCounter_init 2)))))
       = [2, 3]
   \<and> items (ra_values (rolling (ticks [1, 2, 4, 7] (reset (fps_calls [Tick 0, Tick 5] (FPSCounter_init 2))))))
       = [2000, 3000]"
proof -
  have n1: "newest 2 [10, 20, 30 :: real] = [20, 30]"
    by (simp add: newest_def)
  have n2: "newest 2 (intervals [1, 2, 4, 7]) = [2, 3]"
    by (simp add: newest_def)
  have n3: "newest 2 (map (\<lambda>d. d * 1000) (intervals [1, 2, 4, 7])) = [2000, 3000]"
    by (simp add: newest_def)
  have m: "mean [20, 30] = 25" by (simp add: mean_def)
  have "items (ra_values (adds [10, 20, 30] (RollingAverage_init 2))) = newest 2 [10, 20, 30]
      \<and> average (adds [10, 20, 30] (RollingAverage_init 2))
          = (if newest 2 [10, 20, 30 :: real] = [] then 0 else mean (newest 2 [10, 20, 30]))
      \<and> items (frame_times (ticks [1, 2, 4, 7] (reset (fps_calls [Tick 0, Tick 5] (FPSCounter_init 2)))))
          = newest 2 (intervals [1, 2, 4, 7])
      \<and> items (ra_values (rolling (ticks [1, 2, 4, 7] (reset (fps_calls [Tick 0, Tick 5] (FPSCounter_init 2))))))
          = newest 2 (map (\<lambda>d. d * 1000) (intervals [1, 2, 4, 7]))"
    using rolling_window_bounded_fifo_mean[of "[10, 20, 30]" 2 "[Tick 0, Tick 5]" "[1, 2, 4, 7]"
            "FPSCounter_init 2" VideoCaptureSource_init]
    by blast
  then show ?thesis
    unfolding n1 n2 n3 m by simp
qed

section \<open>Properties of the capture source\<close>

lemma close_closed:
  "cap (snd (close ws)) = None \<and> source_path (snd (close ws)) = None
   \<and> next_id (fst (close ws)) = next_id (fst ws)
   \<and> camera_index (snd (close ws)) = camera_index (snd ws)"
  by (cases ws) (simp add: close_def vc_release_def split: option.splits)

lemma close_live: "owns ws \<Longrightarrow> live (fst (close ws)) = []"
  by (cases ws) (auto simp: owns_def close_def held_def vc_release_def split: option.splits if_splits)

lemma close_owns: "owns ws \<Longrightarrow> owns (close ws)"
  using close_live[of ws] close_closed[of ws]
  by (simp add: owns_def held_def)

lemma close_idem: "close (close ws) = close ws"
  by (cases ws) (simp add: close_def split: option.splits)

lemma close_noop: "owns ws \<Longrightarrow> cap (snd ws) = None \<Longrightarrow> close ws = ws"
  by (cases ws) (simp add: owns_def close_def)

lemma open_camera_closes_first: "open_camera drv i (close ws) = open_camera drv i ws"
  by (simp add: open_camera_def close_idem)

lemma open_file_closes_first: "open_file drv p (close ws) = open_file drv p ws"
  by (simp add: open_file_def close_idem)

lemma open_camera_owns: "owns ws \<Longrightarrow> owns (snd (open_camera drv i ws))"
  using close_live[of ws] close_closed[of ws]
  by (cases "close ws") (simp add: owns_def open_camera_def cv2_VideoCapture_def held_def)

lemma open_file_owns: "owns ws \<Longrightarrow> owns (snd (open_file drv p ws))"
  using close_live[of ws] close_closed[of ws]
  by (cases "close ws") (simp add: owns_def open_file_def cv2_VideoCapture_def held_def)

lemma call_owns: "owns ws \<Longrightarrow> owns (call drv c ws)"
  by (cases c) (simp_all add: open_camera_owns open_file_owns close_owns)

lemma calls_owns: "owns ws \<Longrightarrow> owns (calls drv cs ws)"
  by (induction cs arbitrary: ws) (simp_all add: call_owns)

lemma init_owns: "owns (world_init, VideoCaptureSource_init)"
  by (simp add: owns_def world_init_def VideoCaptureSource_init_def held_def)

lemma held_le1: "length (held s) \<le> 1"
  by (simp add: held_def split: option.splits)

lemma open_camera_releases:
  "owns ws \<Longrightarrow> cap (snd ws) = Some h \<Longrightarrow> vc_id h \<notin> set (live (fst (snd (open_camera drv i ws))))"
  using close_live[of ws] close_closed[of ws]
  by (cases "close ws") (auto simp: owns_def open_camera_def cv2_VideoCapture_def)

lemma open_file_releases:
  "owns ws \<Longrightarrow> cap (snd ws) = Some h \<Longrightarrow> vc_id h \<notin> set (live (fst (snd (open_file drv p ws))))"
  using close_live[of ws] close_closed[of ws]
  by (cases "close ws") (auto simp: owns_def open_file_def cv2_VideoCapture_def)


text \<open>
  C8. After every sequence of \<open>open_camera\<close> / \<open>open_file\<close> / \<open>close\<close> calls on a source, the
  open backing handles are exactly the one the source holds, so at most one. Both open
  calls close the existing source first (opening is the same as closing and then
  opening), and the handle held before is no longer open afterwards. \<open>close\<close> on a closed
  source changes nothing. Opening camera 0 and then the file \<open>clip.mp4\<close> leaves the source
  on the file with \<open>source_path\<close> equal to \<open>clip.mp4\<close>, the camera's handle (id 0)
  released.
\<close>

theorem capture_single_handle:
  "live (fst (calls drv cs fresh_source)) = held (snd (calls drv cs fresh_source))
   \<and> length (live (fst (calls drv cs fresh_source))) \<le> 1
   \<and> open_camera drv i ws = open_camera drv i (close ws)
   \<and> open_file drv p ws = open_file drv p (close ws)
   \<and> (cap (snd (calls drv cs fresh_source)) = Some h \<longrightarrow>
        vc_id h \<notin> set (live (fst (snd (open_camera drv i (calls drv cs fresh_source)))))
        \<and> vc_id h \<notin> set (live (fst (snd (open_file drv p (calls drv cs fresh_source))))))
   \<and> (cap (snd (calls drv cs fresh_source)) = None \<longrightarrow>
        close (calls drv cs fresh_source) = calls drv cs fresh_source)
   \<and> map_option vc_id (cap (snd (calls drv [OpenCamera 0] fresh_source))) = Some 0
   \<and> source_path (snd (calls drv [OpenCamera 0, OpenFile ''clip.mp4''] fresh_source))
        = Some ''clip.mp4''
   \<and> map_option vc_device (cap (snd (calls drv [OpenCamera 0, OpenFile ''clip.mp4''] fresh_source)))
        = Some (File ''clip.mp4'')
   \<and> live (fst (calls drv [OpenCamera 0, OpenFile ''clip.mp4''] fresh_source))
        = (if can_open drv (File ''clip.mp4'') then [1] else [])"
proof -
  let ?ws = "calls drv cs fresh_source"
  have o: "owns ?ws"
    unfolding fresh_source_def by (rule calls_owns[OF init_owns])
  have 1: "live (fst ?ws) = held (snd ?ws)"
    using o by (simp add: owns_def)
  have 2: "length (live (fst ?ws)) \<le> 1"
    unfolding 1 by (rule held_le1)
  have 3: "open_camera drv i ws = open_camera drv i (close ws)"
    "open_file drv p ws = open_file drv p (close ws)"
    by (simp_all add: open_camera_closes_first open_file_closes_first)
  have 4: "cap (snd ?ws) = Some h \<longrightarrow>
        vc_id h \<notin> set (live (fst (snd (open_camera drv i ?ws))))
        \<and> vc_id h \<notin> set (live (fst (snd (open_file drv p ?ws))))"
    using open_camera_releases[OF o] open_file_releases[OF o] by blast
  have 5: "cap (snd ?ws) = None \<longrightarrow> close ?ws = ?ws"
    using close_noop[OF o] by blast
  have 6: "map_option vc_id (cap (snd (calls drv [OpenCamera 0] fresh_source))) = Some 0"
    by (simp add: fresh_source_def world_init_def VideoCaptureSource_init_def open_camera_def
          close_def cv2_VideoCapture_def)
  have 7: "source_path (snd (calls drv [OpenCamera 0, OpenFile ''clip.mp4''] fresh_source))
        = Some ''clip.mp4''"
    by (simp add: fresh_source_def world_init_def VideoCaptureSource_init_def open_camera_def
          open_file_def close_def cv2_VideoCapture_def vc_release_def)
  have 8: "map_option vc_device (cap (snd (calls drv [OpenCamera 0, OpenFile ''clip.mp4''] fresh_source)))
        = Some (File ''clip.mp4'')"
    by (simp add: fresh_source_def world_init_def VideoCaptureSource_init_def open_camera_def
          open_file_def close_def cv2_VideoCapture_def vc_release_def)
  have 9: "live (fst (calls drv [OpenCamera 0, OpenFile ''clip.mp4''] fresh_source))
        = (if can_open drv (File ''clip.mp4'') then [1] else [])"
    by (simp add: fresh_source_def world_init_def VideoCaptureSource_init_def open_camera_def
          open_file_def close_def cv2_VideoCapture_def vc_release_def)
  from 1 2 3 4 5 6 7 8 9 show ?thesis by blast
qed

theorem capture_single_handle_witness:
  "cap (snd (calls driver0 [OpenCamera 0] fresh_source))
     = Some \<lparr>vc_id = 0, vc_device = Camera 0 CAP_ANY, vc_isOpened = True, vc_pending = []\<rparr>
   \<and> live (fst (calls driver0 [OpenCamera 0] fresh_source)) = [0]
   \<and> 0 \<notin> set (live (fst (snd (open_file driver0 ''clip.mp4'' (calls driver0 [OpenCamera 0] fresh_source)))))
   \<and> 0 \<notin> set (live (fst (snd (open_camera driver0 1 (calls driver0 [OpenCamera 0] fresh_source)))))
   \<and> live (fst (calls driver0 [OpenCamera 0, OpenFile ''clip.mp4''] fresh_source)) = [1]
   \<and> cap (snd (calls driver0 [OpenCamera 0, Close] fresh_source)) = None
   \<and> close (calls driver0 [OpenCamera 0, Close] fresh_source)
       = calls driver0 [OpenCamera 0, Close] fresh_source"
proof -
  let ?h = "\<lparr>vc_id = 0, vc_device = Camera 0 CAP_ANY, vc_isOpened = True, vc_pending = []\<rparr>"
  have c: "cap (snd (calls driver0 [OpenCamera 0] fresh_source)) = Some ?h"
    by (simp add: driver0_def fresh_source_def world_init_def VideoCaptureSource_init_def
          open_camera_def close_def cv2_VideoCapture_def)
  have l: "live (fst (calls driver0 [OpenCamera 0] fresh_source)) = [0]"
    by (simp add: driver0_def fresh_source_def world_init_def VideoCaptureSource_init_def
          open_camera_def close_def cv2_VideoCapture_def)
  have n: "cap (snd (calls driver0 [OpenCamera 0, Close] fresh_source)) = None"
    by (simp add: driver0_def fresh_source_def world_init_def VideoCaptureSource_init_def
          open_camera_def close_def cv2_VideoCapture_def)
  have k: "can_open driver0 (File ''clip.mp4'')"
    by (simp add: driver0_def)
  have a: "vc_id ?h \<notin> set (live (fst (snd (open_camera driver0 1 (calls driver0 [OpenCamera 0] fresh_source)))))
        \<and> vc_id ?h \<notin> set (live (fst (snd (open_file driver0 ''clip.mp4'' (calls driver0 [OpenCamera 0] fresh_source)))))
        \<and> live (fst (calls driver0 [OpenCamera 0, OpenFile ''clip.mp4''] fresh_source))
            = (if can_open driver0 (File ''clip.mp4'') then [1] else [])"
    using capture_single_handle[of driver0 "[OpenCamera 0]" 1 fresh_source "''clip.mp4''" ?h] c
    by blast
  have b: "close (calls driver0 [OpenCamera 0, Close] fresh_source)
       = calls driver0 [OpenCamera 0, Close] fresh_source"
    using capture_single_handle[of driver0 "[OpenCamera 0, Close]" 1 fresh_source "''clip.mp4''" ?h] n
    by blast
  from a b c l n k show ?thesis by simp
qed

section \<open>Properties of the runner\<close>

lemma emit_all_Nil [simp]: "emit_all [] x = x"
  by (simp add: emit_all_def split: option.splits)

lemma emit_emit_all: "emit sg (emit_all sgs x) = emit_all (sg # sgs) x"
  by (simp add: emit_def emit_all_def split: option.splits)

lemma emit_all_Some [simp]: "emit_all sgs (Some (sgs', x)) = Some (sgs @ sgs', x)"
  by (simp add: emit_all_def)

lemma read_delivers:
  assumes "delivers s (f # fs) rest"
  shows "is_opened s \<and> fst (read s) = (True, Some f) \<and> delivers (snd (read s)) fs rest"
  using assms
  by (auto simp: delivers_def is_opened_def read_def vc_read_def split: option.splits)

lemma delivers_opened: "delivers s fs rest \<Longrightarrow> is_opened s"
  by (auto simp: delivers_def is_opened_def split: option.splits)

lemma read_fails_delivers:
  assumes "delivers s [] rest" "read_fails rest"
  shows "(case fst (read s) of (ok, fr) \<Rightarrow> if ok then fr else None) = None"
  using assms
  by (auto simp: delivers_def read_def vc_read_def read_fails_def split: option.splits list.splits if_splits)

lemma tick_no_raise:
  assumes "no_zero c" "case last_time c of None \<Rightarrow> True | Some lt \<Rightarrow> lt \<noteq> now"
  shows "\<exists>fps lat. snd (tick now c) = Inr (fps, lat)"
proof (cases "last_time c")
  case None
  have "items (frame_times c) \<noteq> [] \<longrightarrow> last (items (frame_times c)) \<noteq> 0"
    using assms(1) last_in_set unfolding no_zero_def by metis
  with None show ?thesis
    by (auto simp: tick_def Let_def)
next
  case (Some lt)
  let ?d = "deque_append (frame_times c) (now - lt)"
  have "set (items ?d) \<subseteq> insert (now - lt) (set (items (frame_times c)))"
    by (auto simp: deque_append_def Let_def dest: list.set_sel(2)[rotated])
  with assms Some have "0 \<notin> set (items ?d)"
    by (auto simp: no_zero_def)
  then have "items ?d \<noteq> [] \<longrightarrow> last (items ?d) \<noteq> 0"
    using last_in_set by metis
  with Some show ?thesis
    by (auto simp: tick_def Let_def)
qed

lemma tick_no_zero:
  assumes "no_zero c" "case last_time c of None \<Rightarrow> True | Some lt \<Rightarrow> lt \<noteq> now"
  shows "no_zero (fst (tick now c)) \<and> last_time (fst (tick now c)) = Some now"
proof (cases "last_time c")
  case None
  with assms show ?thesis
    by (auto simp: tick_def Let_def no_zero_def)
next
  case (Some lt)
  let ?d = "deque_append (frame_times c) (now - lt)"
  have "set (items ?d) \<subseteq> insert (now - lt) (set (items (frame_times c)))"
    by (auto simp: deque_append_def Let_def dest: list.set_sel(2)[rotated])
  with assms Some have "0 \<notin> set (items ?d)"
    by (auto simp: no_zero_def)
  with Some show ?thesis
    by (auto simp: tick_def Let_def no_zero_def)
qed


lemma while_loop_step:
  assumes "running r" "\<not> stop_called e" "delivers (capture r) (f # fs) rest"
    "plugin r = Some p" "proc p f (t_frame e) = Inr ((a, res), p')"
    "tick (t_tick e) (fps_counter r) = (c, Inr (fps, lat))"
  shows "while_loop proc (e # es) r =
     emit (frame_processed a res fps lat (rolling_average_ms c))
       (while_loop proc es
          (r\<lparr>capture := snd (read (capture r)), plugin := Some p', fps_counter := c\<rparr>))"
proof -
  define src where "src = snd (read (capture r))"
  from read_delivers[OF assms(3)]
  have o: "is_opened (capture r)" and rd: "read (capture r) = ((True, Some f), src)"
    by (simp_all add: prod_eq_iff src_def)
  show ?thesis
    unfolding src_def[symmetric]
    using assms(1,2,4,5,6) o rd
    by (simp add: Let_def)
qed

lemma while_loop_raise:
  assumes "running r" "\<not> stop_called e" "delivers (capture r) (f # fs) rest"
    "plugin r = Some p" "proc p f (t_frame e) = Inl ex" "is_Exception ex"
  shows "while_loop proc (e # es) r =
     Some ([error_occurred (str_exc ex), stopped],
           r\<lparr>capture := snd (read (capture r)), running := False\<rparr>, Returned)"
proof -
  define src where "src = snd (read (capture r))"
  from read_delivers[OF assms(3)]
  have o: "is_opened (capture r)" and rd: "read (capture r) = ((True, Some f), src)"
    by (simp_all add: prod_eq_iff src_def)
  show ?thesis
    unfolding src_def[symmetric]
    using assms(1,2,4,5,6) o rd
    by (simp add: Let_def)
qed

text \<open>An exception of \<open>process\<close> that is not an instance of \<open>Exception\<close> leaves the loop:
  nothing is emitted and the running flag stays set.\<close>

lemma while_loop_uncaught:
  assumes "running r" "\<not> stop_called e" "delivers (capture r) (f # fs) rest"
    "plugin r = Some p" "proc p f (t_frame e) = Inl ex" "\<not> is_Exception ex"
  shows "while_loop proc (e # es) r =
     Some ([], r\<lparr>capture := snd (read (capture r))\<rparr>, Raised ex)"
proof -
  define src where "src = snd (read (capture r))"
  from read_delivers[OF assms(3)]
  have o: "is_opened (capture r)" and rd: "read (capture r) = ((True, Some f), src)"
    by (simp_all add: prod_eq_iff src_def)
  show ?thesis
    unfolding src_def[symmetric]
    using assms(1,2,4,5,6) o rd
    by (simp add: Let_def)
qed

lemma while_loop_passthrough:
  assumes "running r" "\<not> stop_called e" "delivers (capture r) (f # fs) rest"
    "plugin r = None"
  shows "while_loop proc (e # es) r =
     emit (frame_processed f [] 0 0 0)
       (while_loop proc es (r\<lparr>capture := snd (read (capture r))\<rparr>))"
proof -
  define src where "src = snd (read (capture r))"
  from read_delivers[OF assms(3)]
  have o: "is_opened (capture r)" and rd: "read (capture r) = ((True, Some f), src)"
    by (simp_all add: prod_eq_iff src_def)
  show ?thesis
    unfolding src_def[symmetric]
    using assms(1,2,4) o rd
    by (simp add: Let_def)
qed

lemma while_loop_stop:
  assumes "stop_called e"
  shows "while_loop proc (e # es) r = Some ([stopped], stop r, Returned)"
  using assms by (simp add: stop_def)

lemma while_loop_not_running:
  assumes "\<not> running r"
  shows "while_loop proc (e # es) r = Some ([stopped], (if stop_called e then stop r else r), Returned)"
  using assms by (simp add: stop_def)

lemma while_loop_read_fails:
  assumes "running r" "\<not> stop_called e" "delivers (capture r) [] rest" "read_fails rest"
  shows "while_loop proc (e # es) r
     = Some ([stopped], r\<lparr>capture := snd (read (capture r))\<rparr>, Returned)"
proof -
  have o: "is_opened (capture r)" using assms(3) by (rule delivers_opened)
  define src where "src = snd (read (capture r))"
  obtain ok fr where rd: "read (capture r) = ((ok, fr), src)"
    unfolding src_def by (metis prod.collapse)
  from read_fails_delivers[OF assms(3,4)] rd
  have n: "(if ok then fr else None) = None"
    by simp
  show ?thesis
    unfolding src_def[symmetric]
    using assms(1,2) o n rd
    by (simp add: Let_def)
qed


lemma sorted_clock_advances_Some:
  "sorted_wrt (<) (t # ts) \<Longrightarrow> clock_advances (Some t) ts"
  by (induction ts arbitrary: t) auto

lemma sorted_clock_advances: "sorted_wrt (<) ts \<Longrightarrow> clock_advances None ts"
  by (cases ts) (simp_all add: sorted_clock_advances_Some del: sorted_wrt.simps)

lemma clock_advances_head:
  "clock_advances lt (t # ts) \<Longrightarrow>
     (case lt of None \<Rightarrow> True | Some l \<Rightarrow> l \<noteq> t) \<and> clock_advances (Some t) ts"
  by (cases lt) auto

lemma while_loop_prefix:
  assumes "length es = length fs"
    "running r" "plugin r = Some p" "delivers (capture r) fs rest"
    "list_all (\<lambda>e. \<not> stop_called e) es"
    "feed proc p (zip fs (map t_frame es)) = Inr (outs, p')"
    "no_zero (fps_counter r)" "clock_advances (last_time (fps_counter r)) (map t_tick es)"
  shows "\<exists>sigs r'. while_loop proc (es @ es') r = emit_all sigs (while_loop proc es' r')
      \<and> map payload sigs = map Some outs
      \<and> running r' \<and> plugin r' = Some p' \<and> thread r' = thread r
      \<and> delivers (capture r') [] rest"
  using assms
proof (induction es arbitrary: fs r p outs)
  case Nil
  then have "while_loop proc ([] @ es') r = emit_all [] (while_loop proc es' r)
      \<and> map payload [] = map Some outs \<and> running r \<and> plugin r = Some p' \<and> thread r = thread r
      \<and> delivers (capture r) [] rest"
    by simp
  then show ?case by blast
next
  case (Cons e es)
  then obtain f fs0 where fs: "fs = f # fs0" by (cases fs) auto
  from Cons.prems(6) fs obtain a res p1 outs0 where
    pr: "proc p f (t_frame e) = Inr ((a, res), p1)"
    and fd: "feed proc p1 (zip fs0 (map t_frame es)) = Inr (outs0, p')"
    and outs: "outs = (a, res) # outs0"
    by (auto split: sum.splits prod.splits)
  from clock_advances_head[of "last_time (fps_counter r)" "t_tick e" "map t_tick es"] Cons.prems(8)
  have ck: "case last_time (fps_counter r) of None \<Rightarrow> True | Some l \<Rightarrow> l \<noteq> t_tick e"
    and ca: "clock_advances (Some (t_tick e)) (map t_tick es)"
    by simp_all
  from tick_no_raise[OF Cons.prems(7) ck] obtain fps lat where
    "snd (tick (t_tick e) (fps_counter r)) = Inr (fps, lat)" by blast
  then obtain c where tk: "tick (t_tick e) (fps_counter r) = (c, Inr (fps, lat))"
    by (metis prod.collapse)
  from tick_no_zero[OF Cons.prems(7) ck] tk
  have cz: "no_zero c" and cl: "last_time c = Some (t_tick e)" by simp_all
  let ?r1 = "r\<lparr>capture := snd (read (capture r)), plugin := Some p1, fps_counter := c\<rparr>"
  have dl: "delivers (capture r) (f # fs0) rest" using Cons.prems(4) fs by simp
  have ns: "\<not> stop_called e" using Cons.prems(5) by simp
  have step: "while_loop proc (e # (es @ es')) r =
      emit (frame_processed a res fps lat (rolling_average_ms c)) (while_loop proc (es @ es') ?r1)"
    using while_loop_step[of r e f fs0 rest p proc a res p1 c fps lat "es @ es'"]
      Cons.prems(2,3) ns dl pr tk by simp
  have "\<exists>sigs r'. while_loop proc (es @ es') ?r1 = emit_all sigs (while_loop proc es' r')
      \<and> map payload sigs = map Some outs0
      \<and> running r' \<and> plugin r' = Some p' \<and> thread r' = thread ?r1
      \<and> delivers (capture r') [] rest"
  proof (rule Cons.IH)
    show "length es = length fs0" using Cons.prems(1) fs by simp
    show "running ?r1" using Cons.prems(2) by simp
    show "plugin ?r1 = Some p1" by simp
    show "delivers (capture ?r1) fs0 rest" using read_delivers[OF dl] by simp
    show "list_all (\<lambda>e. \<not> stop_called e) es" using Cons.prems(5) by simp
    show "feed proc p1 (zip fs0 (map t_frame es)) = Inr (outs0, p')" by (rule fd)
    show "no_zero (fps_counter ?r1)" using cz by simp
    show "clock_advances (last_time (fps_counter ?r1)) (map t_tick es)" using ca cl by simp
  qed
  then obtain sigs r' where
    w: "while_loop proc (es @ es') ?r1 = emit_all sigs (while_loop proc es' r')"
    and pl: "map payload sigs = map Some outs0"
    and rest: "running r'" "plugin r' = Some p'" "thread r' = thread ?r1" "delivers (capture r') [] rest"
    by blast
  let ?sigs = "frame_processed a res fps lat (rolling_average_ms c) # sigs"
  have "while_loop proc ((e # es) @ es') r = emit_all ?sigs (while_loop proc es' r')"
    using step w by (simp add: emit_emit_all)
  moreover have "map payload ?sigs = map Some outs"
    using pl outs by simp
  moreover have "thread r' = thread r" using rest(3) by simp
  ultimately show ?case using rest(1,2,4) by blast
qed

lemma feed_length: "feed proc p fts = Inr (outs, p') \<Longrightarrow> length outs = length fts"
  by (induction fts arbitrary: p outs) (auto split: sum.splits prod.splits)

lemma delivers_append:
  "delivers s (fs @ [f]) rest = delivers s fs ((True, Some f) # rest)"
  by (simp add: delivers_def split: option.splits)

lemma reset_no_zero: "no_zero (reset c) \<and> last_time (reset c) = None"
  by (simp add: no_zero_def reset_def deque_clear_def)

lemma run_loop_prefix:
  assumes "length es = length fs"
    "running r" "plugin r = Some p" "delivers (capture r) fs rest"
    "list_all (\<lambda>e. \<not> stop_called e) es"
    "feed proc p (zip fs (map t_frame es)) = Inr (outs, p')"
    "sorted_wrt (<) (map t_tick es)"
  shows "\<exists>sigs r'. run_loop proc (es @ es') r = emit_all sigs (while_loop proc es' r')
      \<and> map payload sigs = map Some outs
      \<and> running r' \<and> plugin r' = Some p' \<and> thread r' = thread r
      \<and> delivers (capture r') [] rest"
proof -
  let ?r = "r\<lparr>fps_counter := reset (fps_counter r)\<rparr>"
  have "\<exists>sigs r'. while_loop proc (es @ es') ?r = emit_all sigs (while_loop proc es' r')
      \<and> map payload sigs = map Some outs
      \<and> running r' \<and> plugin r' = Some p' \<and> thread r' = thread ?r
      \<and> delivers (capture r') [] rest"
  proof (rule while_loop_prefix)
    show "length es = length fs" by (rule assms(1))
    show "running ?r" using assms(2) by simp
    show "plugin ?r = Some p" using assms(3) by simp
    show "delivers (capture ?r) fs rest" using assms(4) by simp
    show "list_all (\<lambda>e. \<not> stop_called e) es" by (rule assms(5))
    show "feed proc p (zip fs (map t_frame es)) = Inr (outs, p')" by (rule assms(6))
    show "no_zero (fps_counter ?r)" by (simp add: reset_no_zero)
    show "clock_advances (last_time (fps_counter ?r)) (map t_tick es)"
      using sorted_clock_advances[OF assms(7)] by (simp add: reset_no_zero)
  qed
  then show ?thesis by (simp add: run_loop_def)
qed

text \<open>
  When the clock advances between the ticks: in a run of a started runner with a plugin
  in which \<open>N\<close> frames are read and processed and then the consumer has called \<open>stop()\<close>
  or the next read fails, the runner emits exactly \<open>N\<close> frame-ready signals, the \<open>i\<close>-th
  carrying the plugin's output for the \<open>i\<close>-th frame read, followed by one stopped signal.
\<close>

lemma run_emits_in_order_when_clock_advances:
  assumes "running r" "plugin r = Some p" "delivers (capture r) fs rest"
    "length es = length fs"
    "list_all (\<lambda>e. \<not> stop_called e) es"
    "feed proc p (zip fs (map t_frame es)) = Inr (outs, p')"
    "sorted_wrt (<) (map t_tick es)"
    "stop_called e \<or> read_fails rest"
  shows "\<exists>sigs r'. run_loop proc (es @ e # es') r = Some (sigs @ [stopped], r', Returned)
      \<and> map payload sigs = map Some outs
      \<and> length sigs = length fs"
proof -
  from run_loop_prefix[OF assms(4,1,2,3,5,6,7), of "e # es'"]
  obtain sigs r1 where
    w: "run_loop proc (es @ e # es') r = emit_all sigs (while_loop proc (e # es') r1)"
    and pl: "map payload sigs = map Some outs"
    and r1: "running r1" "delivers (capture r1) [] rest"
    by blast
  have "\<exists>r'. while_loop proc (e # es') r1 = Some ([stopped], r', Returned)"
  proof (cases "stop_called e")
    case True
    from while_loop_stop[OF this, of proc es' r1] show ?thesis by blast
  next
    case False
    with assms(8) have "read_fails rest" by simp
    from while_loop_read_fails[OF r1(1) False r1(2) this] show ?thesis by blast
  qed
  then obtain r' where "while_loop proc (e # es') r1 = Some ([stopped], r', Returned)" by blast
  with w have "run_loop proc (es @ e # es') r = Some (sigs @ [stopped], r', Returned)" by simp
  moreover have "length sigs = length fs"
  proof -
    have "length sigs = length (map payload sigs)" by simp
    also have "\<dots> = length outs" by (simp add: pl)
    also have "\<dots> = length fs" using feed_length[OF assms(6)] assms(4) by simp
    finally show ?thesis .
  qed
  ultimately show ?thesis using pl by blast
qed

text \<open>
  C1 (as the code has it). In a run of a started runner whose plugin returns on the first
  \<open>k - 1\<close> frames and on the \<open>k\<close>-th raises an exception that is an instance of
  \<open>Exception\<close>, the runner emits exactly \<open>k - 1\<close> frame-ready signals (the plugin's outputs
  in order), then one error signal carrying the text of the exception, then one stopped
  signal, and returns with the running flag false; the plugin is left in the state after
  its \<open>k - 1\<close> successful calls and exactly \<open>k\<close> frames were read, so nothing is retried.
\<close>

theorem run_plugin_raises:
  assumes "running r" "plugin r = Some p" "delivers (capture r) (fs @ [fk]) rest"
    "length es = length fs"
    "list_all (\<lambda>e. \<not> stop_called e) (es @ [ek])"
    "feed proc p (zip fs (map t_frame es)) = Inr (outs, p')"
    "proc p' fk (t_frame ek) = Inl ex" "is_Exception ex"
    "sorted_wrt (<) (map t_tick es)"
  shows "\<exists>sigs r'. run_loop proc (es @ ek # es') r
          = Some (sigs @ [error_occurred (str_exc ex), stopped], r', Returned)
      \<and> map payload sigs = map Some outs
      \<and> length sigs = length fs
      \<and> \<not> running r' \<and> plugin r' = Some p' \<and> delivers (capture r') [] rest"
proof -
  have d: "delivers (capture r) fs ((True, Some fk) # rest)"
    using assms(3) by (simp add: delivers_append)
  have ns: "list_all (\<lambda>e. \<not> stop_called e) es" "\<not> stop_called ek"
    using assms(5) by simp_all
  from run_loop_prefix[OF assms(4,1,2) d ns(1) assms(6,9), of "ek # es'"]
  obtain sigs r1 where
    w: "run_loop proc (es @ ek # es') r = emit_all sigs (while_loop proc (ek # es') r1)"
    and pl: "map payload sigs = map Some outs"
    and r1: "running r1" "plugin r1 = Some p'" "delivers (capture r1) [] ((True, Some fk) # rest)"
    by blast
  have d1: "delivers (capture r1) [fk] rest"
    using r1(3) by (simp add: delivers_def split: option.splits)
  let ?r' = "r1\<lparr>capture := snd (read (capture r1)), running := False\<rparr>"
  have "while_loop proc (ek # es') r1
      = Some ([error_occurred (str_exc ex), stopped], ?r', Returned)"
    using while_loop_raise[of r1 ek fk "[]" rest p' proc ex es'] r1(1,2) ns(2) d1 assms(7,8) by simp
  with w have "run_loop proc (es @ ek # es') r
      = Some (sigs @ [error_occurred (str_exc ex), stopped], ?r', Returned)" by simp
  moreover have "length sigs = length fs"
  proof -
    have "length sigs = length (map payload sigs)" by simp
    also have "\<dots> = length outs" by (simp add: pl)
    also have "\<dots> = length fs" using feed_length[OF assms(6)] assms(4) by simp
    finally show ?thesis .
  qed
  moreover have "\<not> running ?r'" "plugin ?r' = Some p'" using r1(2) by simp_all
  moreover have "delivers (capture ?r') [] rest" using read_delivers[OF d1] by simp
  ultimately show ?thesis using pl by blast
qed

lemma started_runner_simps:
  "running (started_runner p fs)" "plugin (started_runner p fs) = p"
  "capture (started_runner p fs) = source_with fs"
  by (simp_all add: started_runner_def start_def set_plugin_def FrameProcessorRunner_init_def)

lemma source_with_delivers: "delivers (source_with (fs @ gs)) fs (map (\<lambda>f. (True, Some f)) gs)"
  by (simp add: delivers_def source_with_def)

theorem run_plugin_raises_witness:
  "running (started_runner (Some (0::nat)) (map Frame [1, 2, 3, 4, 5]))
   \<and> fails_on_5th 4 (Frame 5) 5 = Inl (PyExc True ''RuntimeError'' ''model failure'')
   \<and> is_Exception (PyExc True ''RuntimeError'' ''model failure'')
   \<and> (\<exists>sigs r'. run_loop fails_on_5th (map env_at [1, 2, 3, 4, 5])
                    (started_runner (Some 0) (map Frame [1, 2, 3, 4, 5]))
          = Some (sigs @ [error_occurred ''model failure'', stopped], r', Returned)
        \<and> length sigs = 4 \<and> \<not> running r' \<and> plugin r' = Some 4)"
proof -
  let ?fs = "map Frame [1, 2, 3, 4]"
  let ?es = "map env_at [1, 2, 3, 4]"
  let ?r = "started_runner (Some (0::nat)) (?fs @ [Frame 5])"
  let ?outs = "map (\<lambda>i. (Frame i, unified_results_schema ''demo'' (real i) None None None)) [1, 2, 3, 4]"
  let ?ex = "PyExc True ''RuntimeError'' ''model failure''"
  have 1: "running ?r" "plugin ?r = Some 0" by (simp_all only: started_runner_simps)
  have 2: "delivers (capture ?r) (?fs @ [Frame 5]) []"
    using source_with_delivers[of "?fs @ [Frame 5]" "[]"] by (simp only: started_runner_simps append_Nil2 list.map)
  have 3: "length ?es = length ?fs" by simp
  have 4: "list_all (\<lambda>e. \<not> stop_called e) (?es @ [env_at 5])" by (simp add: env_at_def)
  have 5: "feed fails_on_5th 0 (zip ?fs (map t_frame ?es)) = Inr (?outs, 4)"
    by (simp add: fails_on_5th_def env_at_def)
  have 6: "fails_on_5th 4 (Frame 5) (t_frame (env_at 5)) = Inl ?ex"
    by (simp add: fails_on_5th_def)
  have 7: "is_Exception ?ex" by simp
  have 8: "sorted_wrt (<) (map t_tick ?es)" by (simp add: env_at_def)
  from run_plugin_raises[OF 1 2 3 4 5 6 7 8, of "[]"]
  obtain sigs r' where
    "run_loop fails_on_5th (?es @ [env_at 5]) ?r
       = Some (sigs @ [error_occurred (str_exc ?ex), stopped], r', Returned)"
    "length sigs = length ?fs" "\<not> running r'" "plugin r' = Some 4"
    by blast
  then have "run_loop fails_on_5th (map env_at [1, 2, 3, 4, 5])
                    (started_runner (Some 0) (map Frame [1, 2, 3, 4, 5]))
          = Some (sigs @ [error_occurred ''model failure'', stopped], r', Returned)
        \<and> length sigs = 4 \<and> \<not> running r' \<and> plugin r' = Some 4"
    by simp
  then have "\<exists>sigs r'. run_loop fails_on_5th (map env_at [1, 2, 3, 4, 5])
                    (started_runner (Some 0) (map Frame [1, 2, 3, 4, 5]))
          = Some (sigs @ [error_occurred ''model failure'', stopped], r', Returned)
        \<and> length sigs = 4 \<and> \<not> running r' \<and> plugin r' = Some 4"
    by blast
  moreover have "running (started_runner (Some (0::nat)) (map Frame [1, 2, 3, 4, 5]))"
    by (simp only: started_runner_simps)
  moreover have "fails_on_5th 4 (Frame 5) 5 = Inl ?ex" by (simp add: fails_on_5th_def)
  moreover have "is_Exception ?ex" by simp
  ultimately show ?thesis by blast
qed

lemma run_emits_in_order_when_clock_advances_example:
  "(\<exists>sigs r'. run_loop fails_on_5th (map env_at [1, 2, 3, 4])
                    (started_runner (Some (0::nat)) (map Frame [1, 2, 3]))
          = Some (sigs @ [stopped], r', Returned)
        \<and> map payload sigs
            = [Some (Frame 1, unified_results_schema ''demo'' 1 None None None),
               Some (Frame 2, unified_results_schema ''demo'' 2 None None None),
               Some (Frame 3, unified_results_schema ''demo'' 3 None None None)])
   \<and> (\<exists>sigs r'. run_loop fails_on_5th (map env_at [1, 2] @ [(env_at 3)\<lparr>stop_called := True\<rparr>])
                    (started_runner (Some (0::nat)) (map Frame [1, 2, 3]))
          = Some (sigs @ [stopped], r', Returned)
        \<and> map payload sigs
            = [Some (Frame 1, unified_results_schema ''demo'' 1 None None None),
               Some (Frame 2, unified_results_schema ''demo'' 2 None None None)])"
proof -
  let ?r = "started_runner (Some (0::nat)) (map Frame [1, 2, 3])"
  have 1: "running ?r" "plugin ?r = Some 0" by (simp_all only: started_runner_simps)
  have a: "\<exists>sigs r'. run_loop fails_on_5th (map env_at [1, 2, 3] @ env_at 4 # []) ?r
          = Some (sigs @ [stopped], r', Returned)
        \<and> map payload sigs
            = map Some [(Frame 1, unified_results_schema ''demo'' 1 None None None),
                        (Frame 2, unified_results_schema ''demo'' 2 None None None),
                        (Frame 3, unified_results_schema ''demo'' 3 None None None)]
        \<and> length sigs = length (map Frame [1, 2, 3])"
  proof (rule run_emits_in_order_when_clock_advances[OF 1])
    show "delivers (capture ?r) (map Frame [1, 2, 3]) []"
      using source_with_delivers[of "map Frame [1, 2, 3]" "[]"]
      by (simp only: started_runner_simps append_Nil2 list.map)
    show "length (map env_at [1, 2, 3]) = length (map Frame [1, 2, 3])" by simp
    show "list_all (\<lambda>e. \<not> stop_called e) (map env_at [1, 2, 3])" by (simp add: env_at_def)
    show "feed fails_on_5th 0 (zip (map Frame [1, 2, 3]) (map t_frame (map env_at [1, 2, 3])))
        = Inr ([(Frame 1, unified_results_schema ''demo'' 1 None None None),
                (Frame 2, unified_results_schema ''demo'' 2 None None None),
                (Frame 3, unified_results_schema ''demo'' 3 None None None)], 3)"
      by (simp add: fails_on_5th_def env_at_def)
    show "sorted_wrt (<) (map t_tick (map env_at [1, 2, 3]))" by (simp add: env_at_def)
    show "stop_called (env_at 4) \<or> read_fails []" by (simp add: read_fails_def)
  qed
  have b: "\<exists>sigs r'. run_loop fails_on_5th (map env_at [1, 2] @ (env_at 3)\<lparr>stop_called := True\<rparr> # []) ?r
          = Some (sigs @ [stopped], r', Returned)
        \<and> map payload sigs
            = map Some [(Frame 1, unified_results_schema ''demo'' 1 None None None),
                        (Frame 2, unified_results_schema ''demo'' 2 None None None)]
        \<and> length sigs = length (map Frame [1, 2])"
  proof (rule run_emits_in_order_when_clock_advances[OF 1])
    show "delivers (capture ?r) (map Frame [1, 2]) [(True, Some (Frame 3))]"
      using source_with_delivers[of "map Frame [1, 2]" "[Frame 3]"]
      by (simp add: started_runner_simps)
    show "length (map env_at [1, 2]) = length (map Frame [1, 2])" by simp
    show "list_all (\<lambda>e. \<not> stop_called e) (map env_at [1, 2])" by (simp add: env_at_def)
    show "feed fails_on_5th 0 (zip (map Frame [1, 2]) (map t_frame (map env_at [1, 2])))
        = Inr ([(Frame 1, unified_results_schema ''demo'' 1 None None None),
                (Frame 2, unified_results_schema ''demo'' 2 None None None)], 2)"
      by (simp add: fails_on_5th_def env_at_def)
    show "sorted_wrt (<) (map t_tick (map env_at [1, 2]))" by (simp add: env_at_def)
    show "stop_called ((env_at 3)\<lparr>stop_called := True\<rparr>) \<or> read_fails [(True, Some (Frame 3))]"
      by simp
  qed
  from a obtain s1 r1 where
    "run_loop fails_on_5th (map env_at [1, 2, 3] @ env_at 4 # []) ?r = Some (s1 @ [stopped], r1, Returned)"
    "map payload s1
       = map Some [(Frame 1, unified_results_schema ''demo'' 1 None None None),
                   (Frame 2, unified_results_schema ''demo'' 2 None None None),
                   (Frame 3, unified_results_schema ''demo'' 3 None None None)]"
    by blast
  then have a': "run_loop fails_on_5th (map env_at [1, 2, 3, 4]) ?r = Some (s1 @ [stopped], r1, Returned)
      \<and> map payload s1
            = [Some (Frame 1, unified_results_schema ''demo'' 1 None None None),
               Some (Frame 2, unified_results_schema ''demo'' 2 None None None),
               Some (Frame 3, unified_results_schema ''demo'' 3 None None None)]"
    by simp
  from b obtain s2 r2 where
    "run_loop fails_on_5th (map env_at [1, 2] @ (env_at 3)\<lparr>stop_called := True\<rparr> # []) ?r
       = Some (s2 @ [stopped], r2, Returned)"
    "map payload s2
       = map Some [(Frame 1, unified_results_schema ''demo'' 1 None None None),
                   (Frame 2, unified_results_schema ''demo'' 2 None None None)]"
    by blast
  then have b': "run_loop fails_on_5th (map env_at [1, 2] @ [(env_at 3)\<lparr>stop_called := True\<rparr>]) ?r
       = Some (s2 @ [stopped], r2, Returned)
      \<and> map payload s2
            = [Some (Frame 1, unified_results_schema ''demo'' 1 None None None),
               Some (Frame 2, unified_results_schema ''demo'' 2 None None None)]"
    by simp
  show ?thesis
    apply (rule conjI)
     apply (rule exI[of _ s1], rule exI[of _ r1], rule a')
    apply (rule exI[of _ s2], rule exI[of _ r2], rule b')
    done
qed

text \<open>A run in which the plugin returns on the first frame and raises \<open>SystemExit\<close> on the
  second: one frame-ready signal, then neither an error signal nor a stopped signal; the
  loop is left by the exception and the running flag is still set.\<close>

theorem run_uncaught_exception_counterexample:
  "exits_on_2nd 0 (Frame 1) 1 = Inr ((Frame 1, unified_results_schema ''demo'' 1 None None None), 1)
   \<and> exits_on_2nd 1 (Frame 2) 2 = Inl (PyExc False ''SystemExit'' ''1'')
   \<and> map_option fst
        (run_loop exits_on_2nd (map env_at [1, 2, 3])
           (started_runner (Some 0) [Frame 1, Frame 2, Frame 3]))
       = Some [frame_processed (Frame 1) (unified_results_schema ''demo'' 1 None None None) 0 0 0]
   \<and> map_option (snd \<circ> snd)
        (run_loop exits_on_2nd (map env_at [1, 2, 3])
           (started_runner (Some 0) [Frame 1, Frame 2, Frame 3]))
       = Some (Raised (PyExc False ''SystemExit'' ''1''))
   \<and> map_option (running \<circ> fst \<circ> snd)
        (run_loop exits_on_2nd (map env_at [1, 2, 3])
           (started_runner (Some 0) [Frame 1, Frame 2, Frame 3]))
       = Some True"
  by (simp add: run_loop_def started_runner_def start_def set_plugin_def
        FrameProcessorRunner_init_def source_with_def env_at_def is_opened_def read_def
        vc_read_def emit_def reset_def clear_def deque_clear_def FPSCounter_init_def
        RollingAverage_init_def deque_new_def tick_def Let_def deque_append_def add_def
        rolling_average_ms_def average_def exits_on_2nd_def)

text \<open>
  C2, at an input where the code departs from it. The plugin returns on both frames read,
  and the two ticks read the same clock value. The runner emits the frame-ready signal of
  the first frame; for the second frame, which the plugin processed, the division in
  \<open>tick\<close> raises inside the \<open>try\<close> block, so the runner emits an error signal and the stopped
  signal and no second frame-ready signal.
\<close>

theorem run_drops_frame_signal_at_equal_tick_readings:
  "feed fails_on_5th 0 [(Frame 1, 1), (Frame 2, 2)]
     = Inr ([(Frame 1, unified_results_schema ''demo'' 1 None None None),
             (Frame 2, unified_results_schema ''demo'' 2 None None None)], 2)
   \<and> map_option fst
        (run_loop fails_on_5th [pass_with 1 5, pass_with 2 5, pass_with 3 6]
           (started_runner (Some 0) [Frame 1, Frame 2]))
       = Some [frame_processed (Frame 1) (unified_results_schema ''demo'' 1 None None None) 0 0 0,
               error_occurred ''float division by zero'', stopped]"
  by (simp add: run_loop_def started_runner_def start_def set_plugin_def
        FrameProcessorRunner_init_def source_with_def pass_with_def is_opened_def read_def
        vc_read_def emit_def reset_def clear_def deque_clear_def FPSCounter_init_def
        RollingAverage_init_def deque_new_def tick_def Let_def deque_append_def add_def
        rolling_average_ms_def average_def
        ZeroDivisionError_def fails_on_5th_def)

text \<open>
  C4 (as the code has it). In a pass through the loop with no plugin set, a running
  runner, no stop requested and a frame read successfully, the runner emits the raw frame
  with the empty dictionary \<open>{}\<close>, which has none of the keys of the unified schema, and
  zero for the three timing values, and goes on with the next pass on the advanced
  source.
\<close>

theorem passthrough_emits_raw_frame_with_empty_dict:
  "running r \<and> \<not> stop_called e \<and> plugin r = None \<and> delivers (capture r) (f # fs) rest \<longrightarrow>
     while_loop proc (e # es) r
       = emit (frame_processed f [] 0 0 0)
           (while_loop proc es (r\<lparr>capture := snd (read (capture r))\<rparr>))
     \<and> delivers (snd (read (capture r))) fs rest
     \<and> list_all (\<lambda>k. map_of ([] :: pydict) k = None) unified_keys"
proof (intro impI conjI)
  assume a: "running r \<and> \<not> stop_called e \<and> plugin r = None \<and> delivers (capture r) (f # fs) rest"
  then show "while_loop proc (e # es) r
       = emit (frame_processed f [] 0 0 0)
           (while_loop proc es (r\<lparr>capture := snd (read (capture r))\<rparr>))"
    using while_loop_passthrough[of r e f fs rest proc es] by blast
  from a show "delivers (snd (read (capture r))) fs rest"
    using read_delivers[of "capture r" f fs rest] by blast
  show "list_all (\<lambda>k. map_of ([] :: pydict) k = None) unified_keys"
    by (simp add: unified_keys_def)
qed

text \<open>The run of a started runner without plugin on a source with one frame: the result
  emitted with the frame is \<open>{}\<close>, where \<open>detections\<close> and \<open>landmarks\<close> are absent.\<close>

theorem passthrough_result_lacks_schema_keys_counterexample:
  "map_option fst (run_loop fails_on_5th [env_at 1, env_at 2] (started_runner None [Frame 1]))
     = Some [frame_processed (Frame 1) [] 0 0 0, stopped]
   \<and> \<not> has_unified_keys []
   \<and> map_of ([] :: pydict) ''detections'' = None
   \<and> map_of ([] :: pydict) ''landmarks'' = None"
  by (simp add: run_loop_def started_runner_def start_def set_plugin_def
        FrameProcessorRunner_init_def source_with_def env_at_def is_opened_def read_def
        vc_read_def emit_def has_unified_keys_def unified_keys_def)

theorem passthrough_emits_raw_frame_with_empty_dict_witness:
  "running (started_runner (None :: nat option) [Frame 1]) \<and> \<not> stop_called (env_at 1)
   \<and> plugin (started_runner (None :: nat option) [Frame 1]) = None
   \<and> delivers (capture (started_runner (None :: nat option) [Frame 1])) [Frame 1] []
   \<and> while_loop fails_on_5th [env_at 1, env_at 2] (started_runner None [Frame 1])
       = Some ([frame_processed (Frame 1) [] 0 0 0, stopped], started_runner None [], Returned)"
proof -
  let ?r = "started_runner (None :: nat option) [Frame 1]"
  have h: "running ?r \<and> \<not> stop_called (env_at 1) \<and> plugin ?r = None
      \<and> delivers (capture ?r) [Frame 1] []"
    by (simp add: started_runner_simps env_at_def delivers_def source_with_def)
  have n: "snd (read (capture ?r)) = source_with []"
    by (simp add: started_runner_simps source_with_def read_def vc_read_def)
  have e: "?r\<lparr>capture := source_with []\<rparr> = started_runner None []"
    by (simp add: started_runner_def start_def set_plugin_def FrameProcessorRunner_init_def)
  have l: "while_loop fails_on_5th [env_at 2] (started_runner (None :: nat option) [])
      = Some ([stopped], started_runner None [], Returned)"
    by (simp add: started_runner_def start_def set_plugin_def FrameProcessorRunner_init_def
          source_with_def env_at_def is_opened_def read_def vc_read_def)
  have "while_loop fails_on_5th (env_at 1 # [env_at 2]) ?r
       = emit (frame_processed (Frame 1) [] 0 0 0)
           (while_loop fails_on_5th [env_at 2] (?r\<lparr>capture := snd (read (capture ?r))\<rparr>))"
    using passthrough_emits_raw_frame_with_empty_dict[of ?r "env_at 1" "Frame 1" "[]" "[]"
            fails_on_5th "[env_at 2]"] h
    by blast
  then have "while_loop fails_on_5th [env_at 1, env_at 2] ?r
       = Some ([frame_processed (Frame 1) [] 0 0 0, stopped], started_runner None [], Returned)"
    unfolding n e l by (simp add: emit_def)
  with h show ?thesis by blast
qed

lemma reset_eq:
  assumes "maxlen (frame_times c) = maxlen (frame_times c')"
    "maxlen (ra_values (rolling c)) = maxlen (ra_values (rolling c'))"
  shows "reset c = reset c'"
  using assms
  by (cases c; cases c'; cases "frame_times c"; cases "frame_times c'";
      cases "rolling c"; cases "rolling c'";
      cases "ra_values (rolling c)"; cases "ra_values (rolling c')")
     (simp add: reset_def clear_def deque_clear_def)

text \<open>
  C9. \<open>start\<close> on a runner that is running changes nothing and starts no worker; \<open>stop\<close>
  on a runner that is not running changes nothing, and \<open>start\<close> on it sets the running
  flag and starts one worker. The loop that the worker runs resets the counter before the
  first pass: the windows are then empty and there is no previous reading, and the whole
  run is the same whatever samples the counter held before.
\<close>

theorem start_stop_noop_and_reset_on_run:
  "(running r \<longrightarrow> start r = (r, False))
   \<and> (\<not> running r \<longrightarrow>
        stop r = r
        \<and> start r = (r\<lparr>running := True, thread := Some (QThread True)\<rparr>, True))
   \<and> run_loop proc es (r\<lparr>fps_counter := c\<rparr>)
       = while_loop proc es (r\<lparr>fps_counter := reset c\<rparr>)
   \<and> (maxlen (frame_times c) = maxlen (frame_times c')
        \<and> maxlen (ra_values (rolling c)) = maxlen (ra_values (rolling c')) \<longrightarrow>
        run_loop proc es (r\<lparr>fps_counter := c\<rparr>) = run_loop proc es (r\<lparr>fps_counter := c'\<rparr>))
   \<and> items (frame_times (reset c)) = []
   \<and> items (ra_values (rolling (reset c))) = []
   \<and> last_time (reset c) = None"
proof (intro conjI impI)
  show "start r = (r, False)" if "running r"
    using that by (simp add: start_def)
  show "stop r = r" if "\<not> running r"
    using that by (simp add: stop_def)
  show "start r = (r\<lparr>running := True, thread := Some (QThread True)\<rparr>, True)" if "\<not> running r"
    using that by (simp add: start_def)
  show "run_loop proc es (r\<lparr>fps_counter := c\<rparr>) = while_loop proc es (r\<lparr>fps_counter := reset c\<rparr>)"
    by (simp add: run_loop_def)
  show "run_loop proc es (r\<lparr>fps_counter := c\<rparr>) = run_loop proc es (r\<lparr>fps_counter := c'\<rparr>)"
    if "maxlen (frame_times c) = maxlen (frame_times c')
        \<and> maxlen (ra_values (rolling c)) = maxlen (ra_values (rolling c'))"
    using that reset_eq[of c c'] by (simp add: run_loop_def)
  show "items (frame_times (reset c)) = []" "items (ra_values (rolling (reset c))) = []"
    "last_time (reset c) = None"
    by (simp_all add: reset_def clear_def deque_clear_def)
qed


lemma fresh_run_timing:
  "map_option (map timing \<circ> fst)
     (run_loop fails_on_5th (map env_at [1, 2, 3])
        ((started_runner (Some 0) [Frame 1, Frame 2])\<lparr>fps_counter := FPSCounter_init 30\<rparr>))
     = Some [Some (0, 0, 0), Some (1, 1000, 1000), None]"
  by (simp add: run_loop_def started_runner_def start_def set_plugin_def
        FrameProcessorRunner_init_def source_with_def env_at_def is_opened_def read_def
        vc_read_def emit_def fails_on_5th_def reset_def clear_def deque_clear_def
        FPSCounter_init_def RollingAverage_init_def deque_new_def tick_def Let_def
        deque_append_def add_def rolling_average_ms_def average_def)

theorem start_stop_noop_and_reset_on_run_witness:
  "running (started_runner (Some (0::nat)) [Frame 1, Frame 2])
   \<and> start (started_runner (Some (0::nat)) [Frame 1, Frame 2])
       = (started_runner (Some 0) [Frame 1, Frame 2], False)
   \<and> \<not> running idle_runner
   \<and> stop idle_runner = idle_runner
   \<and> start idle_runner = (started_runner (Some 0) [Frame 1, Frame 2], True)
   \<and> items (frame_times stale_counter) = [1, 2]
   \<and> maxlen (frame_times stale_counter) = maxlen (frame_times (FPSCounter_init 30))
   \<and> maxlen (ra_values (rolling stale_counter)) = maxlen (ra_values (rolling (FPSCounter_init 30)))
   \<and> map_option (map timing \<circ> fst)
        (run_loop fails_on_5th (map env_at [1, 2, 3])
           ((started_runner (Some 0) [Frame 1, Frame 2])\<lparr>fps_counter := stale_counter\<rparr>))
       = Some [Some (0, 0, 0), Some (1, 1000, 1000), None]"
proof -
  let ?r = "started_runner (Some (0::nat)) [Frame 1, Frame 2]"
  let ?es = "map env_at [1, 2, 3]"
  have run: "running ?r" by (simp only: started_runner_simps)
  have idle: "\<not> running idle_runner"
    by (simp add: idle_runner_def set_plugin_def FrameProcessorRunner_init_def)
  have st: "(idle_runner\<lparr>running := True, thread := Some (QThread True)\<rparr>) = ?r"
    by (simp add: idle_runner_def started_runner_def start_def set_plugin_def
          FrameProcessorRunner_init_def)
  have m: "maxlen (frame_times stale_counter) = maxlen (frame_times (FPSCounter_init 30))
      \<and> maxlen (ra_values (rolling stale_counter)) = maxlen (ra_values (rolling (FPSCounter_init 30)))"
    by (simp add: stale_counter_def FPSCounter_init_def RollingAverage_init_def deque_new_def
          fst_tick add_def)
  have i: "items (frame_times stale_counter) = [1, 2]"
    by (simp add: stale_counter_def FPSCounter_init_def RollingAverage_init_def deque_new_def
          fst_tick add_def deque_append_def)
  have 1: "start ?r = (?r, False)"
    using start_stop_noop_and_reset_on_run[of ?r fails_on_5th ?es stale_counter "FPSCounter_init 30"] run
    by blast
  have 2: "stop idle_runner = idle_runner
      \<and> start idle_runner = (idle_runner\<lparr>running := True, thread := Some (QThread True)\<rparr>, True)"
    using start_stop_noop_and_reset_on_run[of idle_runner fails_on_5th ?es stale_counter "FPSCounter_init 30"] idle
    by blast
  have 3: "run_loop fails_on_5th ?es (?r\<lparr>fps_counter := stale_counter\<rparr>)
      = run_loop fails_on_5th ?es (?r\<lparr>fps_counter := FPSCounter_init 30\<rparr>)"
    using start_stop_noop_and_reset_on_run[of ?r fails_on_5th ?es stale_counter "FPSCounter_init 30"] m
    by blast
  have 4: "map_option (map timing \<circ> fst)
        (run_loop fails_on_5th ?es (?r\<lparr>fps_counter := stale_counter\<rparr>))
       = Some [Some (0, 0, 0), Some (1, 1000, 1000), None]"
    unfolding 3 by (rule fresh_run_timing)
  from run idle 1 2 m i 4 show ?thesis
    unfolding st by blast
qed

section \<open>Properties of plugin discovery\<close>
















lemma discover_without_hands:
  "discover_plugins dir_without_hands
     = Inr (map (\<lambda>n. \<lparr>plugin_id = n, display_name = n\<rparr>)
              [''pose'', ''facemesh'', ''object_detector'', ''face_detector'',
               ''gesture_recognizer''])"
  by (simp add: discover_plugins_def BUILTIN_PLUGINS_def load_plugin_from_module_def
        dir_without_hands_def builtin_module_def register_def stem_def)


section \<open>Properties of the built-in plugins\<close>

lemma not_initialized_fields:
  "map_of (not_initialized pid t) ''pipeline'' = Some (PyStr pid)
   \<and> map_of (not_initialized pid t) ''timestamp_s'' = Some (PyFloat t)
   \<and> map_of (not_initialized pid t) ''detections'' = Some (PyList [])
   \<and> map_of (not_initialized pid t) ''landmarks'' = Some (PyList [])
   \<and> map_of (not_initialized pid t) ''metadata''
       = Some (PyDict [(''error'', PyStr ''not initialized'')])
   \<and> has_unified_keys (not_initialized pid t)"
  by (simp add: not_initialized_def unified_results_schema_def has_unified_keys_def
        unified_keys_def)

lemma process_session_None:
  "session_is_None p \<Longrightarrow> process du p f t = Inr ((f, not_initialized (builtin_plugin_id p) t), p)"
  by (cases p)
     (simp_all add: FaceDetectorPlugin_process_def ObjectDetectorPlugin_process_def
        PosePlugin_process_def FaceMeshPlugin_process_def GestureRecognizerPlugin_process_def
        lift_result_def)

text \<open>
  C10. For each built-in plugin of the source tree (face detector, object detector, pose,
  face mesh, gesture recognizer), \<open>process\<close> called while the session handle is \<open>None\<close>, as
  it is after construction, does not raise: it returns the input frame unchanged, with
  the plugin unchanged, and a result in the unified schema under the plugin's id whose
  \<open>detections\<close> and \<open>landmarks\<close> are empty and whose \<open>metadata\<close> is
  \<open>{"error": "not initialized"}\<close>.
\<close>

theorem process_before_init_returns_not_initialized:
  "(session_is_None p \<longrightarrow>
      process du p f t = Inr ((f, not_initialized (builtin_plugin_id p) t), p))
   \<and> map_of (not_initialized (builtin_plugin_id p) t) ''pipeline''
       = Some (PyStr (builtin_plugin_id p))
   \<and> map_of (not_initialized (builtin_plugin_id p) t) ''timestamp_s'' = Some (PyFloat t)
   \<and> map_of (not_initialized (builtin_plugin_id p) t) ''detections'' = Some (PyList [])
   \<and> map_of (not_initialized (builtin_plugin_id p) t) ''landmarks'' = Some (PyList [])
   \<and> map_of (not_initialized (builtin_plugin_id p) t) ''metadata''
       = Some (PyDict [(''error'', PyStr ''not initialized'')])
   \<and> has_unified_keys (not_initialized (builtin_plugin_id p) t)
   \<and> session_is_None (FaceDetector FaceDetectorPlugin_init)
   \<and> session_is_None (ObjectDetector ObjectDetectorPlugin_init)
   \<and> session_is_None (Pose PosePlugin_init)
   \<and> session_is_None (FaceMesh FaceMeshPlugin_init)
   \<and> session_is_None (GestureRecognizer GestureRecognizerPlugin_init)"
proof -
  have "session_is_None (FaceDetector FaceDetectorPlugin_init)"
    "session_is_None (ObjectDetector ObjectDetectorPlugin_init)"
    "session_is_None (Pose PosePlugin_init)"
    "session_is_None (FaceMesh FaceMeshPlugin_init)"
    "session_is_None (GestureRecognizer GestureRecognizerPlugin_init)"
    by (simp_all add: FaceDetectorPlugin_init_def ObjectDetectorPlugin_init_def
          PosePlugin_init_def FaceMeshPlugin_init_def GestureRecognizerPlugin_init_def)
  with process_session_None[of p du f t] not_initialized_fields[of "builtin_plugin_id p" t]
  show ?thesis by blast
qed

theorem process_before_init_returns_not_initialized_witness:
  "session_is_None (Pose PosePlugin_init)
   \<and> process no_drawing (Pose PosePlugin_init) (Frame 1) (1/2)
       = Inr ((Frame 1,
               [(''pipeline'', PyStr ''pose''), (''timestamp_s'', PyFloat (1/2)),
                (''detections'', PyList []), (''landmarks'', PyList []),
                (''metadata'', PyDict [(''error'', PyStr ''not initialized'')])]),
              Pose PosePlugin_init)
   \<and> session_is_None (FaceDetector FaceDetectorPlugin_init)
   \<and> process no_drawing (FaceDetector FaceDetectorPlugin_init) (Frame 1) (1/2)
       = Inr ((Frame 1, not_initialized ''face_detector'' (1/2)), FaceDetector FaceDetectorPlugin_init)"
proof -
  have a: "session_is_None (Pose PosePlugin_init)"
    by (simp add: PosePlugin_init_def)
  have b: "session_is_None (FaceDetector FaceDetectorPlugin_init)"
    by (simp add: FaceDetectorPlugin_init_def)
  have 1: "process no_drawing (Pose PosePlugin_init) (Frame 1) (1/2)
      = Inr ((Frame 1, not_initialized (builtin_plugin_id (Pose PosePlugin_init)) (1/2)),
             Pose PosePlugin_init)"
    using process_before_init_returns_not_initialized[of "Pose PosePlugin_init" no_drawing "Frame 1" "1/2"] a
    by blast
  have 2: "process no_drawing (FaceDetector FaceDetectorPlugin_init) (Frame 1) (1/2)
      = Inr ((Frame 1, not_initialized (builtin_plugin_id (FaceDetector FaceDetectorPlugin_init)) (1/2)),
             FaceDetector FaceDetectorPlugin_init)"
    using process_before_init_returns_not_initialized[of "FaceDetector FaceDetectorPlugin_init" no_drawing "Frame 1" "1/2"] b
    by blast
  have n: "not_initialized ''pose'' (1/2)
      = [(''pipeline'', PyStr ''pose''), (''timestamp_s'', PyFloat (1/2)),
         (''detections'', PyList []), (''landmarks'', PyList []),
         (''metadata'', PyDict [(''error'', PyStr ''not initialized'')])]"
    by (simp add: not_initialized_def unified_results_schema_def)
  from a b 1 2 show ?thesis
    by (simp add: n)
qed

end
